theory Spec2Isabelle
  imports Complex_Main
begin

section \<open>Errors and loops\<close>

text \<open>
  Every \<^verbatim>\<open>raise\<close> of the Python sources is a value. The messages of the
  \<^verbatim>\<open>RuntimeError\<close>s are f-strings; the model keeps the raise site and the
  number the message formats. \<open>NotKeyText\<close> is not an exception of the sources: it
  marks a text on which \<^verbatim>\<open>json.loads\<close> raises or returns something other than a
  string or a list of integers, where the model stops following the code.
\<close>

datatype runtime_msg =
    CannotIterate
  | ExpectedOneComplete nat
  | StartingMoleculeSet
  | StartingMoleculeNotSet
  | ErrorAddingOptimization

datatype py_error =
    IndexError
  | KeyError
  | TypeError
  | ValueError
  | AttributeError
  | ValidationError
  | RuntimeError runtime_msg
  | LimitExceededError int
  | NotKeyText

text \<open>A \<^verbatim>\<open>for\<close> loop whose body may raise: the first error ends the loop.\<close>

fun for_each :: "('a \<Rightarrow> 's \<Rightarrow> py_error + 's) \<Rightarrow> 'a list \<Rightarrow> 's \<Rightarrow> py_error + 's" where
  "for_each body [] s = Inr s"
| "for_each body (x # xs) s =
     (case body x s of Inl e \<Rightarrow> Inl e | Inr s' \<Rightarrow> for_each body xs s')"

section \<open>Grid keys and the n-dimensional expansion\<close>

text \<open>
  A Python \<^verbatim>\<open>str\<close> is the list of its code points, each below \<open>0x110000\<close>;
  surrogate code points may stand alone in it.
\<close>

type_synonym pystr = "nat list"

definition is_str :: "pystr \<Rightarrow> bool" where
  "is_str s \<longleftrightarrow> list_all (\<lambda>n. n < 0x110000) s"

text \<open>
  A grid key is what \<^verbatim>\<open>deserialize_key\<close> returns: a string or a tuple of integers
  (\<^verbatim>\<open>Union[str, Tuple[int, ...]]\<close>). Python integers are unbounded.
\<close>

datatype key = KStr pystr | KTuple "int list"

text \<open>
  One pass of the innermost loop body of \<^verbatim>\<open>expand_ndimensional_grid\<close>
  (sockets.py, lines 60-80), for axis \<open>d\<close>, one seed and one displacement. The state is
  the pair of the local variables \<^verbatim>\<open>compute\<close> (a set) and \<^verbatim>\<open>connections\<close>
  (a list). \<^verbatim>\<open>seed[d]\<close> raises IndexError when the seed is too short; on a string
  seed \<^verbatim>\<open>seed[d] + disp\<close> adds a character to an integer, a TypeError.
  Only the axis \<open>d\<close> is checked against \<^verbatim>\<open>dimensions[d]\<close>.
\<close>

fun expand_step ::
  "int list \<Rightarrow> key set \<Rightarrow> nat \<Rightarrow> key \<Rightarrow> int \<Rightarrow> key set \<times> (key \<times> key) list
     \<Rightarrow> py_error + key set \<times> (key \<times> key) list" where
  "expand_step dimensions completed d (KStr s) disp (compute, connections) =
     (if d < length s then Inl TypeError else Inl IndexError)"
| "expand_step dimensions completed d (KTuple seed) disp (compute, connections) =
     (if length seed \<le> d then Inl IndexError
      else
        let new_dim = seed ! d + disp in
        if new_dim \<ge> dimensions ! d then Inr (compute, connections)
        else if new_dim < 0 then Inr (compute, connections)
        else
          let new = KTuple (seed[d := new_dim]) in
          if new \<in> compute then Inr (compute, connections)
          else if new \<in> completed then Inr (compute, connections)
          else Inr (insert new compute, connections @ [(KTuple seed, new)]))"

text \<open>
  The three nested loops. \<open>seeds\<close> is a Python set; the list is the order in which the
  \<^verbatim>\<open>for\<close> statement visits it, which Python leaves open.
\<close>

definition expand_ndimensional_grid ::
  "int list \<Rightarrow> key list \<Rightarrow> key set \<Rightarrow> py_error + (key \<times> key) list" where
  "expand_ndimensional_grid dimensions seeds completed =
     (case for_each
             (\<lambda>d. for_each
                     (\<lambda>seed. for_each (expand_step dimensions completed d seed) [-1, 1])
                     seeds)
             [0 ..< length dimensions] ({}, [])
      of Inl e \<Rightarrow> Inl e
       | Inr (compute, connections) \<Rightarrow> Inr connections)"

text \<open>A grid point is within bounds when it has one coordinate per axis, each in range.\<close>

definition in_bounds :: "int list \<Rightarrow> int list \<Rightarrow> bool" where
  "in_bounds dimensions p \<longleftrightarrow>
     length p = length dimensions \<and>
     (\<forall>d < length dimensions. 0 \<le> p ! d \<and> p ! d < dimensions ! d)"

text \<open>The neighbour differs from the seed on axis \<open>d\<close> only, by one step.\<close>

definition one_step_on_axis :: "nat \<Rightarrow> int list \<Rightarrow> int list \<Rightarrow> bool" where
  "one_step_on_axis d seed new \<longleftrightarrow>
     d < length seed \<and> length new = length seed \<and>
     (new ! d = seed ! d + 1 \<or> new ! d = seed ! d - 1) \<and>
     (\<forall>i < length seed. i \<noteq> d \<longrightarrow> new ! i = seed ! i)"

text \<open>What every emitted pair satisfies whatever the seeds are.\<close>

definition emitted_ok :: "int list \<Rightarrow> key list \<Rightarrow> key set \<Rightarrow> key \<times> key \<Rightarrow> bool" where
  "emitted_ok dimensions seeds completed c \<longleftrightarrow>
     (case c of
        (KTuple seed, KTuple new) \<Rightarrow>
          KTuple seed \<in> set seeds \<and> new \<noteq> seed \<and>
          KTuple new \<notin> completed \<and>
          (\<exists>d < length dimensions.
             one_step_on_axis d seed new \<and> 0 \<le> new ! d \<and> new ! d < dimensions ! d)
      | _ \<Rightarrow> False)"

text \<open>The invariant of the three loops.\<close>

definition expand_inv :: "int list \<Rightarrow> key list \<Rightarrow> key set \<Rightarrow> key set \<times> (key \<times> key) list \<Rightarrow> bool" where
  "expand_inv dimensions seeds completed st \<longleftrightarrow>
     fst st = snd ` set (snd st) \<and> distinct (map snd (snd st)) \<and>
     (\<forall>c \<in> set (snd st). emitted_ok dimensions seeds completed c)"

section \<open>The starting grid\<close>

text \<open>
  Scan steps and measured coordinates are double-precision floats. The model leaves the
  type of the doubles open and takes the operations on them as they are: the rounded
  subtraction and addition, the absolute value, the comparison \<^verbatim>\<open>>=\<close>, the test for
  NaN, and the double 0.0.
\<close>

record 'f float_ops =
  f_sub :: "'f \<Rightarrow> 'f \<Rightarrow> 'f"
  f_add :: "'f \<Rightarrow> 'f \<Rightarrow> 'f"
  f_abs :: "'f \<Rightarrow> 'f"
  f_ge :: "'f \<Rightarrow> 'f \<Rightarrow> bool"
  f_isnan :: "'f \<Rightarrow> bool"
  f_zero :: "'f"

text \<open>
  What the comparison of doubles obeys: a NaN compares false with everything, any two
  other doubles are comparable, and the comparison is transitive.
\<close>

definition ordered_floats :: "'f float_ops \<Rightarrow> bool" where
  "ordered_floats ops \<longleftrightarrow>
     (\<forall>a b. f_isnan ops a \<or> f_isnan ops b \<longrightarrow> \<not> f_ge ops a b) \<and>
     (\<forall>a b. \<not> f_isnan ops a \<longrightarrow> \<not> f_isnan ops b \<longrightarrow> f_ge ops a b \<or> f_ge ops b a) \<and>
     (\<forall>a b c. f_ge ops a b \<longrightarrow> f_ge ops b c \<longrightarrow> f_ge ops a c)"

text \<open>
  \<^verbatim>\<open>StepTypeEnum\<close> and \<^verbatim>\<open>ScanDimension\<close> (qcportal.records.gridoptimization)
  as \<^verbatim>\<open>calculate_starting_grid\<close> reads them. The enumeration has the two members
  the code compares with; the final \<^verbatim>\<open>raise KeyError\<close> of
  \<^verbatim>\<open>calculate_starting_grid\<close> has no member left to reach it.
\<close>

datatype StepTypeEnum = Absolute | Relative

record 'f ScanDimension =
  scan_type :: string
  indices :: "nat list"
  steps :: "'f list"
  step_type :: StepTypeEnum

text \<open>
  \<^verbatim>\<open>numpy.argmin\<close> on an array of doubles. It raises ValueError on an empty array.
  Otherwise it walks the array once, keeping the least entry so far and its index, and
  takes a new entry when \<^verbatim>\<open>new >= least\<close> is false; a NaN is taken as the least and
  ends the walk.
\<close>

fun argmin_from :: "'f float_ops \<Rightarrow> 'f \<Rightarrow> nat \<Rightarrow> nat \<Rightarrow> 'f list \<Rightarrow> nat" where
  "argmin_from ops mp min_ind i [] = min_ind"
| "argmin_from ops mp min_ind i (x # xs) =
     (if \<not> f_ge ops x mp
      then (if f_isnan ops x then i else argmin_from ops x i (Suc i) xs)
      else argmin_from ops mp min_ind (Suc i) xs)"

definition argmin :: "'f float_ops \<Rightarrow> 'f list \<Rightarrow> py_error + nat" where
  "argmin ops xs =
     (case xs of
        [] \<Rightarrow> Inl ValueError
      | x # rest \<Rightarrow> Inr (if f_isnan ops x then 0 else argmin_from ops x 0 1 rest))"

text \<open>
  The value \<open>m\<close> the steps are compared with (sockets.py, lines 120-125): the measured
  coordinate for an absolute scan, 0 for a relative one. \<open>mol_measure\<close> stands for
  \<^verbatim>\<open>Molecule.measure\<close> of the molecule library, which may raise.
\<close>

definition scan_reference ::
  "'f float_ops \<Rightarrow> ('m \<Rightarrow> nat list \<Rightarrow> py_error + 'f) \<Rightarrow> 'f ScanDimension \<Rightarrow> 'm \<Rightarrow> py_error + 'f" where
  "scan_reference ops mol_measure scan molecule =
     (case step_type scan of
        Absolute \<Rightarrow> mol_measure molecule (indices scan)
      | Relative \<Rightarrow> Inr (f_zero ops))"

text \<open>\<^verbatim>\<open>np.abs(np.array(scan.steps) - m)\<close>: one rounded difference per step.\<close>

definition distances :: "'f float_ops \<Rightarrow> 'f list \<Rightarrow> 'f \<Rightarrow> 'f list" where
  "distances ops xs m = map (\<lambda>s. f_abs ops (f_sub ops s m)) xs"

text \<open>The loop of \<^verbatim>\<open>calculate_starting_grid\<close> over the parsed scans (lines 117-128).\<close>

fun starting_grid_loop ::
  "'f float_ops \<Rightarrow> ('m \<Rightarrow> nat list \<Rightarrow> py_error + 'f) \<Rightarrow> 'f ScanDimension list \<Rightarrow> 'm
     \<Rightarrow> py_error + int list" where
  "starting_grid_loop ops mol_measure [] molecule = Inr []"
| "starting_grid_loop ops mol_measure (scan # scans) molecule =
     (case scan_reference ops mol_measure scan molecule of
        Inl e \<Rightarrow> Inl e
      | Inr m \<Rightarrow>
          (case argmin ops (distances ops (steps scan) m) of
             Inl e \<Rightarrow> Inl e
           | Inr idx \<Rightarrow>
               (case starting_grid_loop ops mol_measure scans molecule of
                  Inl e \<Rightarrow> Inl e
                | Inr starting_grid \<Rightarrow> Inr (int idx # starting_grid))))"

text \<open>
  \<^verbatim>\<open>calculate_starting_grid\<close> (sockets.py, lines 113-130). Its first statement is
  \<^verbatim>\<open>parse_obj_as(List[ScanDimension], scans_dict)\<close>: the validation of the scan
  dictionaries by the model class, which is not among the sources and is taken as the
  function \<open>parse_scans\<close>; it raises when a dictionary does not validate.
\<close>

definition calculate_starting_grid ::
  "'f float_ops \<Rightarrow> ('raw \<Rightarrow> py_error + 'f ScanDimension list)
     \<Rightarrow> ('m \<Rightarrow> nat list \<Rightarrow> py_error + 'f) \<Rightarrow> 'raw \<Rightarrow> 'm \<Rightarrow> py_error + int list" where
  "calculate_starting_grid ops parse_scans mol_measure scans_dict molecule =
     (case parse_scans scans_dict of
        Inl e \<Rightarrow> Inl e
      | Inr scans \<Rightarrow> starting_grid_loop ops mol_measure scans molecule)"

text \<open>
  Index \<open>i\<close> is what \<^verbatim>\<open>argmin\<close> answers on \<open>xs\<close>: the first NaN when there is one,
  and otherwise the first index whose entry no other entry is below.
\<close>

definition first_least :: "'f float_ops \<Rightarrow> 'f list \<Rightarrow> nat \<Rightarrow> bool" where
  "first_least ops xs i \<longleftrightarrow>
     i < length xs \<and>
     (if list_ex (f_isnan ops) xs
      then f_isnan ops (xs ! i) \<and> (\<forall>j < i. \<not> f_isnan ops (xs ! j))
      else (\<forall>j < length xs. f_ge ops (xs ! j) (xs ! i)) \<and>
           (\<forall>j < i. \<not> f_ge ops (xs ! i) (xs ! j)))"

text \<open>
  For the examples: doubles that are small whole numbers, on which the operations are
  exact, so that the reals stand for them; scan dictionaries that all validate; a
  molecule given by one number, which every measurement returns.
\<close>

definition real_ge :: "real \<Rightarrow> real \<Rightarrow> bool" where
  "real_ge a b \<longleftrightarrow> b \<le> a"

definition never_nan :: "real \<Rightarrow> bool" where
  "never_nan x \<longleftrightarrow> False"

definition exact_ops :: "real float_ops" where
  "exact_ops =
     \<lparr>f_sub = minus, f_add = plus, f_abs = abs, f_ge = real_ge, f_isnan = never_nan,
      f_zero = 0\<rparr>"

definition validated :: "real ScanDimension list \<Rightarrow> py_error + real ScanDimension list" where
  "validated scans_dict = Inr scans_dict"

definition constant_measure :: "real \<Rightarrow> nat list \<Rightarrow> py_error + real" where
  "constant_measure molecule idx = Inr molecule"

section \<open>The task routes\<close>

text \<open>
  The bodies of the two requests (qcportal.tasks) as the routes read them, and the
  storage socket as two functions on the database, which the routes call and do not
  define. \<open>max_limit\<close> is the configured \<^verbatim>\<open>api_limits.manager_tasks_claim\<close>.
\<close>

record TaskClaimBody =
  claim_fullname :: string
  claim_tags :: "string list"
  claim_limit :: int

record 'res TaskReturnBody =
  return_fullname :: string
  results :: "'res list"

text \<open>
  Modelled from the spec: \<^verbatim>\<open>calculate_limit\<close> (qcportal.utils) is imported by
  routes.py and is not among the sources. The specification says that the limit on claim
  "is clipped to a server-configured maximum".
\<close>

definition calculate_limit :: "int \<Rightarrow> int \<Rightarrow> int" where
  "calculate_limit max_limit given_limit = min given_limit max_limit"

text \<open>\<^verbatim>\<open>claim_tasks_v1\<close> (routes.py, lines 15-25).\<close>

definition claim_tasks_v1 ::
  "int \<Rightarrow> ('db \<Rightarrow> string \<Rightarrow> string list \<Rightarrow> int \<Rightarrow> 'tasks \<times> 'db) \<Rightarrow> TaskClaimBody \<Rightarrow> 'db
     \<Rightarrow> 'tasks \<times> 'db" where
  "claim_tasks_v1 max_limit claim_tasks body_data db =
     claim_tasks db (claim_fullname body_data) (claim_tags body_data)
       (calculate_limit max_limit (claim_limit body_data))"

text \<open>
  \<^verbatim>\<open>return_tasks_v1\<close> (routes.py, lines 30-37): the size check comes before the call
  of the storage socket.
\<close>

definition return_tasks_v1 ::
  "int \<Rightarrow> ('db \<Rightarrow> string \<Rightarrow> 'res list \<Rightarrow> 'meta \<times> 'db) \<Rightarrow> 'res TaskReturnBody \<Rightarrow> 'db
     \<Rightarrow> (py_error + 'meta) \<times> 'db" where
  "return_tasks_v1 max_limit update_finished body_data db =
     (if int (length (results body_data)) > max_limit
      then (Inl (LimitExceededError max_limit), db)
      else
        (case update_finished db (return_fullname body_data) (results body_data) of
           (meta, db') \<Rightarrow> (Inr meta, db')))"

text \<open>
  A storage socket for the examples: the database is the list of the results stored so
  far; a claim hands out the limit it was called with.
\<close>

definition store_results :: "nat list \<Rightarrow> string \<Rightarrow> nat list \<Rightarrow> nat \<times> nat list" where
  "store_results db manager_name rs = (length rs, db @ rs)"

definition claim_up_to :: "nat list \<Rightarrow> string \<Rightarrow> string list \<Rightarrow> int \<Rightarrow> int \<times> nat list" where
  "claim_up_to db manager_name tags n = (n, db)"

section \<open>Lowercase fields\<close>

text \<open>
  The strings of these fields are lists of code points below 256 (Latin-1), which is what
  the character type holds. \<^verbatim>\<open>str.lower\<close> on them moves the capital letters, A to Z
  (65-90) and the accented capitals \<open>U+00C0\<close> to \<open>U+00DE\<close> (192-222) without the
  multiplication sign \<open>U+00D7\<close> (215), 32 places up and leaves every other code point
  as it is. The function \<^verbatim>\<open>lower()\<close> of the database is taken to fold the same way.
\<close>

definition is_capital :: "char \<Rightarrow> bool" where
  "is_capital c \<longleftrightarrow>
     (let n = (of_char c :: nat) in (65 \<le> n \<and> n \<le> 90) \<or> (192 \<le> n \<and> n \<le> 222 \<and> n \<noteq> 215))"

definition lower_char :: "char \<Rightarrow> char" where
  "lower_char c = (if is_capital c then char_of ((of_char c :: nat) + 32) else c)"

definition lower :: "string \<Rightarrow> string" where
  "lower v = map lower_char v"

text \<open>
  The validators of the record models (records.py, lines 129-131 and 326-334).
\<close>

definition check_program :: "string \<Rightarrow> string" where
  "check_program v = lower v"

definition check_method :: "string \<Rightarrow> string" where
  "check_method v = lower v"

text \<open>
  Modelled from the spec: \<^verbatim>\<open>prepare_basis\<close> (interface/models/model_utils.py) is
  imported by records.py and is not among the sources. The specification says that
  \<^verbatim>\<open>basis\<close> is "case-folded to lowercase at the boundary".
\<close>

definition prepare_basis :: "string \<Rightarrow> string" where
  "prepare_basis v = lower v"

definition check_basis :: "string \<Rightarrow> string" where
  "check_basis v = prepare_basis v"

text \<open>
  The migration 88182596f844. A schema holds the columns declared NOT NULL and the check
  constraints; each constraint the migration creates is
  \<^verbatim>\<open>column(c) == func.lower(column(c))\<close> on one column of one table.
\<close>

record lower_check =
  ck_name :: string
  ck_table :: string
  ck_column :: string

record schema =
  not_null :: "(string \<times> string) list"
  checks :: "lower_check list"

definition upgrade :: "schema \<Rightarrow> schema" where
  "upgrade s =
     s\<lparr>not_null := not_null s @ [(''task_queue'', ''base_result_id'')],
       checks := checks s @
         [\<lparr>ck_name = ''ck_result_program_lower'', ck_table = ''result'', ck_column = ''program''\<rparr>,
          \<lparr>ck_name = ''ck_result_driver_lower'', ck_table = ''result'', ck_column = ''driver''\<rparr>,
          \<lparr>ck_name = ''ck_result_method_lower'', ck_table = ''result'', ck_column = ''method''\<rparr>,
          \<lparr>ck_name = ''ck_result_basis_lower'', ck_table = ''result'', ck_column = ''basis''\<rparr>,
          \<lparr>ck_name = ''ck_optimization_procedure_program_lower'',
             ck_table = ''optimization_procedure'', ck_column = ''program''\<rparr>,
          \<lparr>ck_name = ''ck_grid_optimization_procedure_program_lower'',
             ck_table = ''grid_optimization_procedure'', ck_column = ''program''\<rparr>,
          \<lparr>ck_name = ''ck_torsiondrive_procedure_program_lower'',
             ck_table = ''torsiondrive_procedure'', ck_column = ''program''\<rparr>]\<rparr>"

text \<open>
  A row gives its columns a text or NULL. A check constraint rejects a row only when its
  expression is false; on NULL the comparison is unknown and the row passes.
\<close>

type_synonym row = "(string \<times> string option) list"

definition check_passes :: "lower_check \<Rightarrow> row \<Rightarrow> bool" where
  "check_passes ck r =
     (case map_of r (ck_column ck) of
        Some (Some v) \<Rightarrow> v = lower v
      | _ \<Rightarrow> True)"

definition row_accepted :: "schema \<Rightarrow> string \<Rightarrow> row \<Rightarrow> bool" where
  "row_accepted s table r =
     list_all (\<lambda>ck. ck_table ck \<noteq> table \<or> check_passes ck r) (checks s)"

text \<open>Two rows for the examples: one of validated fields, one with the method in capitals.\<close>

definition example_row :: row where
  "example_row =
     [(''program'', Some ''psi4''), (''driver'', Some ''energy''),
      (''method'', Some ''b3lyp''), (''basis'', Some ''6-31g'')]"

definition capital_row :: row where
  "capital_row =
     [(''program'', Some ''psi4''), (''driver'', Some ''energy''),
      (''method'', Some ''B3LYP''), (''basis'', Some ''6-31g'')]"

section \<open>Key serialization\<close>

text \<open>
  \<^verbatim>\<open>serialize_key\<close> is \<^verbatim>\<open>json.dumps\<close> and \<^verbatim>\<open>deserialize_key\<close> is
  \<^verbatim>\<open>json.loads\<close> followed by \<^verbatim>\<open>tuple\<close> unless the value is a string. The
  library is modelled on the JSON values a key can be, a string or an array of integers,
  with the text it writes and reads for them. A text is a Python string too, so a list of
  code points; the comments give the character of each code.
  \<open>int_max_str_digits\<close> is the interpreter's limit on the decimal digits of an integer
  converted to or from text (\<^verbatim>\<open>sys.get_int_max_str_digits()\<close>, 4300 unless set; 0
  switches the limit off).
\<close>

datatype json = JStr pystr | JArr "int list"

subsection \<open>Writing\<close>

text \<open>The decimal digits of a natural number, 48 being the code of \<^verbatim>\<open>0\<close>.\<close>

fun str_nat :: "nat \<Rightarrow> pystr" where
  "str_nat n = (if n < 10 then [48 + n] else str_nat (n div 10) @ [48 + n mod 10])"

text \<open>
  \<^verbatim>\<open>int.__repr__\<close>: a minus sign (45) when negative, and ValueError when the
  number has more digits than the limit.
\<close>

definition int_repr :: "nat \<Rightarrow> int \<Rightarrow> py_error + pystr" where
  "int_repr int_max_str_digits i =
     (let ds = str_nat (nat \<bar>i\<bar>) in
      if 0 < int_max_str_digits \<and> int_max_str_digits < length ds then Inl ValueError
      else Inr (if i < 0 then 45 # ds else ds))"

text \<open>
  The items of an array, written one after the other and joined by the default separator
  \<^verbatim>\<open>", "\<close> (44, 32); the first item that cannot be written ends the call.
\<close>

fun write_items :: "nat \<Rightarrow> int list \<Rightarrow> py_error + pystr" where
  "write_items int_max_str_digits [] = Inr []"
| "write_items int_max_str_digits [x] = int_repr int_max_str_digits x"
| "write_items int_max_str_digits (x # y # ys) =
     (case int_repr int_max_str_digits x of
        Inl e \<Rightarrow> Inl e
      | Inr a \<Rightarrow>
          (case write_items int_max_str_digits (y # ys) of
             Inl e \<Rightarrow> Inl e
           | Inr b \<Rightarrow> Inr (a @ [44, 32] @ b)))"

text \<open>
  A string is written between double quotes (34) with \<^verbatim>\<open>ensure_ascii\<close>: the quote
  and the backslash (92) are escaped, newline, carriage return, tab, backspace and form
  feed have their short escapes, the other characters from space to tilde stand for
  themselves, and every other code point is written as a backslash, \<^verbatim>\<open>u\<close> (117) and
  four lowercase hexadecimal digits, a code point of \<open>0x10000\<close> or more as the two
  surrogates of its UTF-16 form. The shifts and masks of the source are the divisions and
  remainders by 1024 here.
\<close>

definition hex_digit :: "nat \<Rightarrow> nat" where
  "hex_digit d = (if d < 10 then 48 + d else 87 + d)"

definition u_escape :: "nat \<Rightarrow> pystr" where
  "u_escape x =
     [92, 117, hex_digit (x div 4096), hex_digit (x div 256 mod 16),
      hex_digit (x div 16 mod 16), hex_digit (x mod 16)]"

definition escape_cp :: "nat \<Rightarrow> pystr" where
  "escape_cp n =
     (if n = 34 then [92, 34]
      else if n = 92 then [92, 92]
      else if n = 10 then [92, 110]
      else if n = 13 then [92, 114]
      else if n = 9 then [92, 116]
      else if n = 8 then [92, 98]
      else if n = 12 then [92, 102]
      else if 32 \<le> n \<and> n \<le> 126 then [n]
      else if n < 0x10000 then u_escape n
      else u_escape (0xD800 + (n - 0x10000) div 1024) @ u_escape (0xDC00 + (n - 0x10000) mod 1024))"

definition json_dumps :: "nat \<Rightarrow> json \<Rightarrow> py_error + pystr" where
  "json_dumps int_max_str_digits v =
     (case v of
        JStr s \<Rightarrow> Inr (34 # concat (map escape_cp s) @ [34])
      | JArr xs \<Rightarrow>
          (case write_items int_max_str_digits xs of
             Inl e \<Rightarrow> Inl e
           | Inr body \<Rightarrow> Inr (91 # body @ [93])))"

text \<open>
  \<^verbatim>\<open>serialize_key\<close> (sockets.py, lines 85-100). A tuple and a list are written as
  the same array.
\<close>

definition serialize_key :: "nat \<Rightarrow> key \<Rightarrow> py_error + pystr" where
  "serialize_key int_max_str_digits k =
     json_dumps int_max_str_digits (case k of KStr s \<Rightarrow> JStr s | KTuple xs \<Rightarrow> JArr xs)"

subsection \<open>Reading\<close>

text \<open>White space is the space (32), the tab (9), the newline (10) and the carriage
  return (13).\<close>

definition is_ws :: "nat \<Rightarrow> bool" where
  "is_ws c \<longleftrightarrow> c = 32 \<or> c = 9 \<or> c = 10 \<or> c = 13"

definition skip_ws :: "pystr \<Rightarrow> pystr" where
  "skip_ws s = dropWhile is_ws s"

definition is_digit :: "nat \<Rightarrow> bool" where
  "is_digit c \<longleftrightarrow> 48 \<le> c \<and> c \<le> 57"

definition nat_of_digits :: "pystr \<Rightarrow> nat" where
  "nat_of_digits ds = foldl (\<lambda>a c. 10 * a + (c - 48)) 0 ds"

text \<open>
  An integer literal: digits with no leading zero, no more of them than the limit; a
  literal that goes on as a fraction (46) or an exponent (101, 69) is a float, outside
  the keys.
\<close>

definition parse_nat :: "nat \<Rightarrow> pystr \<Rightarrow> (nat \<times> pystr) option" where
  "parse_nat int_max_str_digits s =
     (let ds = takeWhile is_digit s; r = dropWhile is_digit s in
      if ds = [] then None
      else if hd ds = 48 \<and> 1 < length ds then None
      else if r \<noteq> [] \<and> (hd r = 46 \<or> hd r = 101 \<or> hd r = 69) then None
      else if 0 < int_max_str_digits \<and> int_max_str_digits < length ds then None
      else Some (nat_of_digits ds, r))"

definition parse_int :: "nat \<Rightarrow> pystr \<Rightarrow> (int \<times> pystr) option" where
  "parse_int int_max_str_digits s =
     (case s of
        [] \<Rightarrow> None
      | c # r \<Rightarrow>
          if c = 45 then map_option (\<lambda>(n, r'). (- int n, r')) (parse_nat int_max_str_digits r)
          else map_option (\<lambda>(n, r'). (int n, r')) (parse_nat int_max_str_digits s))"

text \<open>A hexadecimal digit in either case, and the number four of them write.\<close>

definition hex_val :: "nat \<Rightarrow> nat option" where
  "hex_val n =
     (if 48 \<le> n \<and> n \<le> 57 then Some (n - 48)
      else if 97 \<le> n \<and> n \<le> 102 then Some (n - 87)
      else if 65 \<le> n \<and> n \<le> 70 then Some (n - 55)
      else None)"

definition hex4 :: "nat \<Rightarrow> nat \<Rightarrow> nat \<Rightarrow> nat \<Rightarrow> nat option" where
  "hex4 a b c d =
     (case (hex_val a, hex_val b, hex_val c, hex_val d) of
        (Some x, Some y, Some z, Some w) \<Rightarrow> Some (((x * 16 + y) * 16 + z) * 16 + w)
      | _ \<Rightarrow> None)"

text \<open>The short escapes: the character after the backslash and the code point it means.\<close>

definition unescape :: "nat \<Rightarrow> nat option" where
  "unescape e =
     (if e = 34 then Some 34
      else if e = 92 then Some 92
      else if e = 47 then Some 47
      else if e = 98 then Some 8
      else if e = 102 then Some 12
      else if e = 110 then Some 10
      else if e = 114 then Some 13
      else if e = 116 then Some 9
      else None)"

text \<open>
  After a \<^verbatim>\<open>\u\<close> escape of value \<open>uni\<close>, with \<open>rest\<close> the text that follows it: a
  high surrogate directly followed by another \<^verbatim>\<open>\u\<close> escape that is a low surrogate
  is read with it as one code point; a malformed second escape is an error; anything else
  leaves \<open>uni\<close> as it is and the text unread.
\<close>

definition join_surrogates :: "nat \<Rightarrow> pystr \<Rightarrow> (nat \<times> pystr) option" where
  "join_surrogates uni rest =
     (if 0xD800 \<le> uni \<and> uni \<le> 0xDBFF then
        (case rest of
           b1 # b2 # esc \<Rightarrow>
             if b1 = 92 \<and> b2 = 117 then
               (case esc of
                  g1 # g2 # g3 # g4 # rest' \<Rightarrow>
                    (case hex4 g1 g2 g3 g4 of
                       None \<Rightarrow> None
                     | Some uni2 \<Rightarrow>
                         if 0xDC00 \<le> uni2 \<and> uni2 \<le> 0xDFFF
                         then Some (0x10000 + ((uni - 0xD800) * 1024 + (uni2 - 0xDC00)), rest')
                         else Some (uni, rest))
                | _ \<Rightarrow> None)
             else Some (uni, rest)
         | _ \<Rightarrow> Some (uni, rest))
      else Some (uni, rest))"

lemma join_surrogates_length:
  "join_surrogates uni rest = Some (n, rest') \<Longrightarrow> length rest' \<le> length rest"
  by (auto simp: join_surrogates_def split: if_splits list.splits option.splits)

text \<open>
  The characters of a string after its opening quote, up to the closing one; the result
  is the decoded string and the text that follows. A raw control character ends the scan
  with an error, as does an unknown escape.
\<close>

function scan_string :: "pystr \<Rightarrow> (pystr \<times> pystr) option" where
  "scan_string [] = None"
| "scan_string (c # cs) =
     (if c = 34 then Some ([], cs)
      else if c = 92 then
        (case cs of
           [] \<Rightarrow> None
         | e # rest \<Rightarrow>
             if e = 117 then
               (case rest of
                  h1 # h2 # h3 # h4 # rest1 \<Rightarrow>
                    (case hex4 h1 h2 h3 h4 of
                       None \<Rightarrow> None
                     | Some uni \<Rightarrow>
                         (case join_surrogates uni rest1 of
                            None \<Rightarrow> None
                          | Some (n, rest2) \<Rightarrow>
                              map_option (\<lambda>(s, r). (n # s, r)) (scan_string rest2)))
                | _ \<Rightarrow> None)
             else
               (case unescape e of
                  None \<Rightarrow> None
                | Some ch \<Rightarrow> map_option (\<lambda>(s, r). (ch # s, r)) (scan_string rest)))
      else if c < 32 then None
      else map_option (\<lambda>(s, r). (c # s, r)) (scan_string cs))"
  by pat_completeness auto
termination
proof (relation "measure length")
  show "wf (measure length)" by simp
next
  fix c :: nat and cs e rest h1 list h2 lista h3 listb h4 rest1 uni x2 n rest2
  assume "cs = e # rest" "rest = h1 # list" "list = h2 # lista" "lista = h3 # listb"
    "listb = h4 # rest1" "join_surrogates uni rest1 = Some x2" "(n, rest2) = x2"
  then show "(rest2, c # cs) \<in> measure length"
    using join_surrogates_length[of uni rest1 n rest2] by auto
qed auto

text \<open>Reading an integer uses up at least one character, so the array scan ends.\<close>

lemma parse_nat_shorter: "parse_nat mx s = Some (n, r) \<Longrightarrow> length r < length s"
proof -
  assume a: "parse_nat mx s = Some (n, r)"
  then have r: "r = dropWhile is_digit s" and ds: "takeWhile is_digit s \<noteq> []"
    by (auto simp: parse_nat_def Let_def split: if_splits)
  have "length (takeWhile is_digit s) + length (dropWhile is_digit s) = length s"
    by (metis length_append takeWhile_dropWhile_id)
  then show ?thesis using r ds by (cases "takeWhile is_digit s") auto
qed

lemma parse_int_shorter: "parse_int mx s = Some (i, r) \<Longrightarrow> length r < length s"
  by (cases s) (auto simp: parse_int_def split: if_splits dest!: parse_nat_shorter)

lemma skip_ws_length: "length (skip_ws s) \<le> length s"
  by (simp add: skip_ws_def length_dropWhile_le)

text \<open>
  The items of a non-empty array, from its first item on: an integer, then a comma (44)
  and the next item, or the closing bracket (93). The result is the list and the text
  after the bracket.
\<close>

function scan_items :: "nat \<Rightarrow> pystr \<Rightarrow> (int list \<times> pystr) option" where
  "scan_items int_max_str_digits s =
     (case parse_int int_max_str_digits s of
        None \<Rightarrow> None
      | Some (i, r) \<Rightarrow>
          (case skip_ws r of
             [] \<Rightarrow> None
           | c # r' \<Rightarrow>
               if c = 44
               then map_option (\<lambda>(xs, t). (i # xs, t)) (scan_items int_max_str_digits (skip_ws r'))
               else if c = 93 then Some ([i], r')
               else None))"
  by pat_completeness auto
termination
proof (relation "measure (\<lambda>(mx, s). length s)")
  show "wf (measure (\<lambda>(mx, s). length s))" by simp
next
  fix int_max_str_digits :: nat and s :: pystr and x2 i r c r'
  assume "parse_int int_max_str_digits s = Some x2" and "(i, r) = x2" and "skip_ws r = c # r'"
  then have a: "length r < length s" and b: "length (c # r') \<le> length r"
    using parse_int_shorter[of int_max_str_digits s i r] skip_ws_length[of r] by auto
  have "length (skip_ws r') \<le> length r'" by (rule skip_ws_length)
  then show "((int_max_str_digits, skip_ws r'), (int_max_str_digits, s))
               \<in> measure (\<lambda>(mx, s). length s)"
    using a b by simp
qed

text \<open>
  \<^verbatim>\<open>json.loads\<close> on the texts of the keys: white space, a string or an array (91) of
  integers, white space, and nothing more.
\<close>

definition json_loads :: "nat \<Rightarrow> pystr \<Rightarrow> py_error + json" where
  "json_loads int_max_str_digits text =
     (case skip_ws text of
        [] \<Rightarrow> Inl NotKeyText
      | c # r \<Rightarrow>
          if c = 34 then
            (case scan_string r of
               None \<Rightarrow> Inl NotKeyText
             | Some (v, t) \<Rightarrow> if skip_ws t = [] then Inr (JStr v) else Inl NotKeyText)
          else if c = 91 then
            (case skip_ws r of
               [] \<Rightarrow> Inl NotKeyText
             | c' # r' \<Rightarrow>
                 if c' = 93 then (if skip_ws r' = [] then Inr (JArr []) else Inl NotKeyText)
                 else
                   (case scan_items int_max_str_digits (c' # r') of
                      None \<Rightarrow> Inl NotKeyText
                    | Some (xs, t) \<Rightarrow> if skip_ws t = [] then Inr (JArr xs) else Inl NotKeyText))
          else Inl NotKeyText)"

text \<open>\<^verbatim>\<open>deserialize_key\<close> (sockets.py, lines 103-110).\<close>

definition deserialize_key :: "nat \<Rightarrow> pystr \<Rightarrow> py_error + key" where
  "deserialize_key int_max_str_digits k =
     (case json_loads int_max_str_digits k of
        Inl e \<Rightarrow> Inl e
      | Inr (JStr s) \<Rightarrow> Inr (KStr s)
      | Inr (JArr xs) \<Rightarrow> Inr (KTuple xs))"

text \<open>A text at which an integer literal ends: its end, or a character that is no digit
  and starts no fraction or exponent.\<close>

definition int_end :: "pystr \<Rightarrow> bool" where
  "int_end r \<longleftrightarrow> r = [] \<or> (\<not> is_digit (hd r) \<and> hd r \<noteq> 46 \<and> hd r \<noteq> 101 \<and> hd r \<noteq> 69)"

text \<open>
  A string in which no high surrogate is directly followed by a low surrogate, and an
  integer that the digit limit lets through.
\<close>

fun no_surrogate_pair :: "pystr \<Rightarrow> bool" where
  "no_surrogate_pair (a # b # s) \<longleftrightarrow>
     \<not> (0xD800 \<le> a \<and> a \<le> 0xDBFF \<and> 0xDC00 \<le> b \<and> b \<le> 0xDFFF) \<and> no_surrogate_pair (b # s)"
| "no_surrogate_pair s \<longleftrightarrow> True"

definition within_digits :: "nat \<Rightarrow> int \<Rightarrow> bool" where
  "within_digits int_max_str_digits i \<longleftrightarrow>
     int_max_str_digits = 0 \<or> length (str_nat (nat \<bar>i\<bar>)) \<le> int_max_str_digits"

section \<open>Adding grid optimizations\<close>

text \<open>
  \<^verbatim>\<open>RecordStatusEnum\<close> and \<^verbatim>\<open>PriorityEnum\<close> (qcportal.records), with the members
  the specification lists.
\<close>

datatype RecordStatusEnum = Waiting | Running | Complete | Error | Cancelled | Invalid | Deleted

datatype PriorityEnum = Low | Normal | High

text \<open>
  \<^verbatim>\<open>InsertMetadata\<close> (qcportal.metadata_models) as \<^verbatim>\<open>add\<close> builds and reads it.
  Whether a metadata counts as a success is decided by the class, which is not among the
  sources: \<open>meta_success\<close> below stands for its property \<^verbatim>\<open>success\<close>.
\<close>

record InsertMetadata =
  error_description :: "string option"
  inserted_idx :: "nat list"
  existing_idx :: "nat list"

text \<open>
  The record \<^verbatim>\<open>add\<close> constructs for each molecule (sockets.py, lines 472-477),
  before \<^verbatim>\<open>create_service\<close> attaches the service row to it.
\<close>

record GridoptimizationRecordNew =
  new_is_service :: bool
  new_specification_id :: "nat option"
  new_initial_molecule_id :: "nat option"
  new_status :: RecordStatusEnum

text \<open>
  \<^verbatim>\<open>GridoptimizationInputSpecification\<close> (qcportal.records.gridoptimization) as
  \<^verbatim>\<open>add_specification\<close> reads it; \<open>'kw\<close> is the dictionary of its keywords
  (\<^verbatim>\<open>keywords.dict(exclude_defaults=True)\<close>).
\<close>

record ('kw, 'ospec) GridoptimizationInputSpecification =
  gi_program :: string
  gi_keywords :: "'kw"
  gi_optimization_specification :: "'ospec"

text \<open>
  What the two methods call and do not define: the properties \<^verbatim>\<open>success\<close> and
  \<^verbatim>\<open>error_string\<close> of a metadata, \<^verbatim>\<open>optimization.add_specification\<close>, the
  \<^verbatim>\<open>INSERT ... ON CONFLICT DO NOTHING RETURNING id\<close> statement with
  \<^verbatim>\<open>scalar_one_or_none\<close>, the \<^verbatim>\<open>SELECT\<close> statement with \<^verbatim>\<open>scalar_one\<close>
  (which raises when it finds no row), \<^verbatim>\<open>molecules.add_mixed\<close>,
  \<^verbatim>\<open>create_service\<close> and \<^verbatim>\<open>insert_general\<close>. \<open>'db\<close> is the state of the
  session, \<open>'row\<close> a record with its service row attached.
\<close>

record ('db, 'kw, 'ospec, 'mol, 'row) add_socket =
  meta_success :: "InsertMetadata \<Rightarrow> bool"
  meta_error_string :: "InsertMetadata \<Rightarrow> string"
  opt_add_specification :: "'db \<Rightarrow> 'ospec \<Rightarrow> (InsertMetadata \<times> nat option) \<times> 'db"
  insert_specification :: "'db \<Rightarrow> string \<Rightarrow> 'kw \<Rightarrow> nat option \<Rightarrow> nat option \<times> 'db"
  select_specification :: "'db \<Rightarrow> string \<Rightarrow> 'kw \<Rightarrow> nat option \<Rightarrow> py_error + nat"
  add_mixed :: "'db \<Rightarrow> 'mol list \<Rightarrow> (InsertMetadata \<times> nat option list) \<times> 'db"
  create_service :: "GridoptimizationRecordNew \<Rightarrow> string option \<Rightarrow> PriorityEnum \<Rightarrow> 'row"
  insert_general :: "'db \<Rightarrow> 'row list \<Rightarrow> (InsertMetadata \<times> nat list list) \<times> 'db"

text \<open>\<^verbatim>\<open>add_specification\<close> (sockets.py, lines 202-245).\<close>

definition add_specification ::
  "('db, 'kw, 'ospec, 'mol, 'row) add_socket \<Rightarrow> ('kw, 'ospec) GridoptimizationInputSpecification
     \<Rightarrow> 'db \<Rightarrow> (py_error + InsertMetadata \<times> nat option) \<times> 'db" where
  "add_specification sock go_spec db =
     (let go_kw_dict = gi_keywords go_spec in
      case opt_add_specification sock db (gi_optimization_specification go_spec) of
        ((meta, opt_spec_id), db1) \<Rightarrow>
          if \<not> meta_success sock meta then
            (Inr (\<lparr>error_description =
                      Some (''Unable to add optimization specification: ''
                            @ meta_error_string sock meta),
                    inserted_idx = [], existing_idx = []\<rparr>, None), db1)
          else
            (case insert_specification sock db1 (gi_program go_spec) go_kw_dict opt_spec_id of
               (Some r, db2) \<Rightarrow>
                 (Inr (\<lparr>error_description = None, inserted_idx = [0], existing_idx = []\<rparr>,
                       Some r), db2)
             | (None, db2) \<Rightarrow>
                 (case select_specification sock db2 (gi_program go_spec) go_kw_dict opt_spec_id of
                    Inl e \<Rightarrow> (Inl e, db2)
                  | Inr r \<Rightarrow>
                      (Inr (\<lparr>error_description = None, inserted_idx = [], existing_idx = [0]\<rparr>,
                            Some r), db2))))"

text \<open>
  \<^verbatim>\<open>"Aborted - ..." + meta.error_description\<close>: adding \<^verbatim>\<open>None\<close> to a string is
  a TypeError.
\<close>

definition aborted :: "string \<Rightarrow> InsertMetadata \<Rightarrow> py_error + InsertMetadata" where
  "aborted prefix meta =
     (case error_description meta of
        None \<Rightarrow> Inl TypeError
      | Some d \<Rightarrow> Inr \<lparr>error_description = Some (prefix @ d), inserted_idx = [], existing_idx = []\<rparr>)"

text \<open>The loop of lines 470-480: one record with its service row per molecule id.\<close>

definition all_orm ::
  "('db, 'kw, 'ospec, 'mol, 'row) add_socket \<Rightarrow> nat option \<Rightarrow> nat option list \<Rightarrow> string option
     \<Rightarrow> PriorityEnum \<Rightarrow> 'row list" where
  "all_orm sock spec_id init_mol_ids tag priority =
     map (\<lambda>mid. create_service sock
                   \<lparr>new_is_service = True, new_specification_id = spec_id,
                    new_initial_molecule_id = mid, new_status = Waiting\<rparr>
                   tag priority)
         init_mol_ids"

text \<open>\<^verbatim>\<open>[x[0] for x in ids]\<close>: an empty row raises IndexError.\<close>

fun first_columns :: "nat list list \<Rightarrow> py_error + nat list" where
  "first_columns [] = Inr []"
| "first_columns (x # xs) =
     (case x of
        [] \<Rightarrow> Inl IndexError
      | i # _ \<Rightarrow> (case first_columns xs of Inl e \<Rightarrow> Inl e | Inr r \<Rightarrow> Inr (i # r)))"

text \<open>
  \<^verbatim>\<open>GridoptimizationRecordSocket.add\<close> (sockets.py, lines 410-489). The result is
  what the call returns or raises, and the session after it.
\<close>

definition add ::
  "('db, 'kw, 'ospec, 'mol, 'row) add_socket \<Rightarrow> ('kw, 'ospec) GridoptimizationInputSpecification
     \<Rightarrow> 'mol list \<Rightarrow> string option \<Rightarrow> PriorityEnum
     \<Rightarrow> 'db \<Rightarrow> (py_error + InsertMetadata \<times> nat list) \<times> 'db" where
  "add sock go_spec initial_molecules tag priority db =
     (let tag = (case tag of None \<Rightarrow> None | Some t \<Rightarrow> Some (lower t)) in
      case add_specification sock go_spec db of
        (Inl e, db1) \<Rightarrow> (Inl e, db1)
      | (Inr (spec_meta, spec_id), db1) \<Rightarrow>
          if \<not> meta_success sock spec_meta then
            (case aborted ''Aborted - could not add specification: '' spec_meta of
               Inl e \<Rightarrow> (Inl e, db1)
             | Inr m \<Rightarrow> (Inr (m, []), db1))
          else
            (case add_mixed sock db1 initial_molecules of
               ((mol_meta, init_mol_ids), db2) \<Rightarrow>
                 if \<not> meta_success sock mol_meta then
                   (case aborted ''Aborted - could not add all molecules: '' mol_meta of
                      Inl e \<Rightarrow> (Inl e, db2)
                    | Inr m \<Rightarrow> (Inr (m, []), db2))
                 else
                   (case insert_general sock db2
                           (all_orm sock spec_id init_mol_ids tag priority) of
                      ((meta, ids), db3) \<Rightarrow>
                        (case first_columns ids of
                           Inl e \<Rightarrow> (Inl e, db3)
                         | Inr r \<Rightarrow> (Inr (meta, r), db3)))))"

text \<open>
  A socket for the examples: the session is the list of the rows inserted so far, a row
  is the record with the tag and the priority of its service, every molecule is its own
  id, every specification is new and gets the id 7, and a metadata is a success when it
  describes no error.
\<close>

type_synonym service_row = "GridoptimizationRecordNew \<times> string option \<times> PriorityEnum"

definition no_error :: "InsertMetadata \<Rightarrow> bool" where
  "no_error m \<longleftrightarrow> error_description m = None"

definition error_text :: "InsertMetadata \<Rightarrow> string" where
  "error_text m = (case error_description m of None \<Rightarrow> [] | Some d \<Rightarrow> d)"

definition opt_spec_five ::
  "service_row list \<Rightarrow> unit \<Rightarrow> (InsertMetadata \<times> nat option) \<times> service_row list" where
  "opt_spec_five db spec =
     ((\<lparr>error_description = None, inserted_idx = [0], existing_idx = []\<rparr>, Some 5), db)"

definition insert_seven ::
  "service_row list \<Rightarrow> string \<Rightarrow> unit \<Rightarrow> nat option \<Rightarrow> nat option \<times> service_row list" where
  "insert_seven db program kw opt_spec_id = (Some 7, db)"

definition select_seven ::
  "service_row list \<Rightarrow> string \<Rightarrow> unit \<Rightarrow> nat option \<Rightarrow> py_error + nat" where
  "select_seven db program kw opt_spec_id = Inr 7"

definition own_ids ::
  "service_row list \<Rightarrow> nat list \<Rightarrow> (InsertMetadata \<times> nat option list) \<times> service_row list" where
  "own_ids db mols =
     ((\<lparr>error_description = None, inserted_idx = [], existing_idx = []\<rparr>, map Some mols), db)"

definition with_service ::
  "GridoptimizationRecordNew \<Rightarrow> string option \<Rightarrow> PriorityEnum \<Rightarrow> service_row" where
  "with_service go_orm tag priority = (go_orm, tag, priority)"

definition store_rows ::
  "service_row list \<Rightarrow> service_row list \<Rightarrow> (InsertMetadata \<times> nat list list) \<times> service_row list" where
  "store_rows db rows =
     ((\<lparr>error_description = None, inserted_idx = [0 ..< length rows], existing_idx = []\<rparr>,
       map (\<lambda>i. [length db + i]) [0 ..< length rows]),
      db @ rows)"

definition example_add_socket ::
  "(service_row list, unit, unit, nat, service_row) add_socket" where
  "example_add_socket =
     \<lparr>meta_success = no_error, meta_error_string = error_text,
      opt_add_specification = opt_spec_five, insert_specification = insert_seven,
      select_specification = select_seven, add_mixed = own_ids,
      create_service = with_service, insert_general = store_rows\<rparr>"

definition example_go_spec :: "(unit, unit) GridoptimizationInputSpecification" where
  "example_go_spec =
     \<lparr>gi_program = ''gridoptimization'', gi_keywords = (), gi_optimization_specification = ()\<rparr>"


section \<open>Properties of the expansion\<close>

lemma for_each_invariant:
  assumes "for_each body xs s = Inr t"
    and "I s"
    and "\<And>x a b. x \<in> set xs \<Longrightarrow> I a \<Longrightarrow> body x a = Inr b \<Longrightarrow> I b"
  shows "I t"
  using assms
proof (induction xs arbitrary: s)
  case Nil
  then show ?case by simp
next
  case (Cons x xs)
  from Cons.prems(1) obtain s' where b: "body x s = Inr s'" and r: "for_each body xs s' = Inr t"
    by (auto split: sum.splits)
  have s': "I s'" using Cons.prems(3)[of x s s'] Cons.prems(2) b by simp
  show ?case
  proof (rule Cons.IH[OF r])
    show "I s'" by (rule s')
  next
    fix y a b
    assume "y \<in> set xs" "I a" "body y a = Inr b"
    then show "I b" using Cons.prems(3)[of y a b] by simp
  qed
qed

lemma for_each_total:
  assumes "\<And>x a. x \<in> set xs \<Longrightarrow> \<exists>b. body x a = Inr b"
  shows "\<exists>t. for_each body xs s = Inr t"
  using assms
proof (induction xs arbitrary: s)
  case Nil
  then show ?case by simp
next
  case (Cons x xs)
  obtain s' where "body x s = Inr s'" using Cons.prems[of x s] by auto
  moreover have "\<exists>t. for_each body xs s' = Inr t" using Cons.IH Cons.prems by simp
  ultimately show ?case by simp
qed

lemma one_step_update:
  assumes "d < length seed" "disp = 1 \<or> disp = -1"
  shows "one_step_on_axis d seed (seed[d := seed ! d + disp])"
  using assms by (auto simp: one_step_on_axis_def)

lemma expand_step_inv:
  assumes "expand_step dimensions completed d seed disp st = Inr st'"
    and "expand_inv dimensions seeds completed st"
    and "seed \<in> set seeds" "d < length dimensions" "disp = 1 \<or> disp = -1"
  shows "expand_inv dimensions seeds completed st'"
proof (cases seed)
  case (KStr s)
  then show ?thesis using assms(1) by (cases st) (simp split: if_splits)
next
  case (KTuple sv)
  obtain compute connections where st: "st = (compute, connections)" by (cases st)
  let ?nd = "sv ! d + disp"
  let ?new = "KTuple (sv[d := ?nd])"
  show ?thesis
  proof (cases "st' = st")
    case True
    then show ?thesis using assms(2) by simp
  next
    case False
    with assms(1) KTuple st
    have len: "d < length sv" and hi: "?nd < dimensions ! d" and lo: "0 \<le> ?nd"
      and nc: "?new \<notin> compute" and ncomp: "?new \<notin> completed"
      and st': "st' = (insert ?new compute, connections @ [(KTuple sv, ?new)])"
      by (auto simp: Let_def split: if_splits)
    have ne: "sv[d := ?nd] \<noteq> sv"
    proof
      assume "sv[d := ?nd] = sv"
      then have "sv[d := ?nd] ! d = sv ! d" by simp
      then show False using len assms(5) by auto
    qed
    have ok: "emitted_ok dimensions seeds completed (KTuple sv, ?new)"
      unfolding emitted_ok_def
      using assms(3,4) KTuple ne ncomp one_step_update[OF len assms(5)] hi lo len
      by auto
    from assms(2) st have c: "compute = snd ` set connections"
      and dist: "distinct (map snd connections)"
      and all: "\<forall>c \<in> set connections. emitted_ok dimensions seeds completed c"
      by (auto simp: expand_inv_def)
    have "?new \<notin> snd ` set connections" using nc c by simp
    then have "distinct (map snd (connections @ [(KTuple sv, ?new)]))"
      using dist by auto
    moreover have "insert ?new compute = snd ` set (connections @ [(KTuple sv, ?new)])"
      using c by auto
    ultimately show ?thesis using st' ok all by (auto simp: expand_inv_def)
  qed
qed

lemma expand_loops_inv:
  assumes "for_each
             (\<lambda>d. for_each
                     (\<lambda>seed. for_each (expand_step dimensions completed d seed) [-1, 1])
                     seeds)
             [0 ..< length dimensions] ({}, []) = Inr st"
  shows "expand_inv dimensions seeds completed st"
proof (rule for_each_invariant[OF assms, where I = "expand_inv dimensions seeds completed"])
  show "expand_inv dimensions seeds completed ({}, [])" by (simp add: expand_inv_def)
next
  fix d a b
  assume d: "d \<in> set [0 ..< length dimensions]"
    and a: "expand_inv dimensions seeds completed a"
    and run: "for_each (\<lambda>seed. for_each (expand_step dimensions completed d seed) [-1, 1]) seeds a = Inr b"
  show "expand_inv dimensions seeds completed b"
  proof (rule for_each_invariant[OF run, where I = "expand_inv dimensions seeds completed"])
    show "expand_inv dimensions seeds completed a" by (rule a)
  next
    fix seed a' b'
    assume s: "seed \<in> set seeds" and a': "expand_inv dimensions seeds completed a'"
      and run': "for_each (expand_step dimensions completed d seed) [-1, 1] a' = Inr b'"
    show "expand_inv dimensions seeds completed b'"
    proof (rule for_each_invariant[OF run', where I = "expand_inv dimensions seeds completed"])
      show "expand_inv dimensions seeds completed a'" by (rule a')
    next
      fix disp :: int and u v
      assume "disp \<in> set [-1, 1]" and "expand_inv dimensions seeds completed u"
        and "expand_step dimensions completed d seed disp u = Inr v"
      then show "expand_inv dimensions seeds completed v"
        using expand_step_inv[of dimensions completed d seed disp u v seeds] s d by auto
    qed
  qed
qed

lemma expand_step_total:
  assumes "d < length seed"
  shows "\<exists>st'. expand_step dimensions completed d (KTuple seed) disp st = Inr st'"
  using assms by (cases st) (simp add: Let_def)

lemma one_step_in_bounds:
  assumes "one_step_on_axis d seed new" "0 \<le> new ! d" "new ! d < dimensions ! d"
    and "in_bounds dimensions seed"
  shows "in_bounds dimensions new"
  unfolding in_bounds_def
proof (intro conjI allI impI)
  show "length new = length dimensions"
    using assms(1,4) by (simp add: one_step_on_axis_def in_bounds_def)
next
  fix i assume i: "i < length dimensions"
  show "0 \<le> new ! i" "new ! i < dimensions ! i"
    using assms i by (cases "i = d"; auto simp: one_step_on_axis_def in_bounds_def)+
qed

lemma expand_returns:
  assumes "\<forall>k \<in> set seeds. \<exists>s. k = KTuple s \<and> length dimensions \<le> length s"
  shows "\<exists>connections. expand_ndimensional_grid dimensions seeds completed = Inr connections"
proof -
  have "\<exists>t. for_each
             (\<lambda>d. for_each
                     (\<lambda>seed. for_each (expand_step dimensions completed d seed) [-1, 1])
                     seeds)
             [0 ..< length dimensions] ({}, []) = Inr t"
  proof (rule for_each_total)
    fix d a
    assume d: "d \<in> set [0 ..< length dimensions]"
    show "\<exists>b. for_each (\<lambda>seed. for_each (expand_step dimensions completed d seed) [-1, 1])
                 seeds a = Inr b"
    proof (rule for_each_total)
      fix seed a'
      assume "seed \<in> set seeds"
      then obtain sv where sv: "seed = KTuple sv" "length dimensions \<le> length sv"
        using assms by auto
      show "\<exists>b. for_each (expand_step dimensions completed d seed) [-1, 1] a' = Inr b"
      proof (rule for_each_total)
        fix disp :: int and u
        show "\<exists>b. expand_step dimensions completed d seed disp u = Inr b"
          using expand_step_total[of d sv] sv d by simp
      qed
    qed
  qed
  then show ?thesis by (auto simp: expand_ndimensional_grid_def split: prod.splits)
qed

text \<open>
  C1, as the code has it. Every pair of a returned list joins a seed of the call to a
  neighbour that is a tuple, differs from the seed on exactly one axis by one step, lies
  inside \<open>[0, dimensions[d])\<close> on that axis, and is not in \<^verbatim>\<open>complete\<close>; no
  neighbour is emitted twice. The function never looks a neighbour up in \<^verbatim>\<open>seeds\<close>
  and never checks the other axes: the neighbour is outside \<^verbatim>\<open>seeds\<close> when the
  seeds are part of \<^verbatim>\<open>complete\<close> (as \<^verbatim>\<open>iterate_service\<close> passes them), and
  within bounds on every axis when its seed is. The call returns whenever every seed is a
  tuple with a coordinate for each axis.
\<close>

theorem expand_ndimensional_grid_emitted:
  "(\<forall>connections. expand_ndimensional_grid dimensions seeds completed = Inr connections \<longrightarrow>
      distinct (map snd connections) \<and>
      (\<forall>c \<in> set connections.
         emitted_ok dimensions seeds completed c \<and>
         (set seeds \<subseteq> completed \<longrightarrow> snd c \<notin> set seeds) \<and>
         (\<forall>seed new. c = (KTuple seed, KTuple new) \<longrightarrow> in_bounds dimensions seed
            \<longrightarrow> in_bounds dimensions new))) \<and>
   ((\<forall>k \<in> set seeds. \<exists>s. k = KTuple s \<and> length dimensions \<le> length s) \<longrightarrow>
      (\<exists>connections. expand_ndimensional_grid dimensions seeds completed = Inr connections))"
proof (intro conjI allI impI)
  fix connections
  assume run: "expand_ndimensional_grid dimensions seeds completed = Inr connections"
  then obtain compute where
    "for_each
       (\<lambda>d. for_each
               (\<lambda>seed. for_each (expand_step dimensions completed d seed) [-1, 1])
               seeds)
       [0 ..< length dimensions] ({}, []) = Inr (compute, connections)"
    by (auto simp: expand_ndimensional_grid_def split: sum.splits prod.splits)
  then have inv: "expand_inv dimensions seeds completed (compute, connections)"
    by (rule expand_loops_inv)
  show "distinct (map snd connections)" using inv by (simp add: expand_inv_def)
  show "\<forall>c \<in> set connections.
         emitted_ok dimensions seeds completed c \<and>
         (set seeds \<subseteq> completed \<longrightarrow> snd c \<notin> set seeds) \<and>
         (\<forall>seed new. c = (KTuple seed, KTuple new) \<longrightarrow> in_bounds dimensions seed
            \<longrightarrow> in_bounds dimensions new)"
  proof
    fix c
    assume "c \<in> set connections"
    then have ok: "emitted_ok dimensions seeds completed c"
      using inv by (simp add: expand_inv_def)
    then obtain seed new where c: "c = (KTuple seed, KTuple new)"
      by (auto simp: emitted_ok_def split: prod.splits key.splits)
    from ok c have nc: "KTuple new \<notin> completed"
      and ax: "\<exists>d < length dimensions.
                 one_step_on_axis d seed new \<and> 0 \<le> new ! d \<and> new ! d < dimensions ! d"
      by (auto simp: emitted_ok_def)
    have "in_bounds dimensions new" if "in_bounds dimensions seed"
      using ax that one_step_in_bounds by blast
    then show "emitted_ok dimensions seeds completed c \<and>
         (set seeds \<subseteq> completed \<longrightarrow> snd c \<notin> set seeds) \<and>
         (\<forall>seed new. c = (KTuple seed, KTuple new) \<longrightarrow> in_bounds dimensions seed
            \<longrightarrow> in_bounds dimensions new)"
      using ok c nc by auto
  qed
next
  assume "\<forall>k \<in> set seeds. \<exists>s. k = KTuple s \<and> length dimensions \<le> length s"
  then show "\<exists>connections. expand_ndimensional_grid dimensions seeds completed = Inr connections"
    by (rule expand_returns)
qed

lemma in_bounds_3_3: "in_bounds [3, 3] [a, b] \<longleftrightarrow> 0 \<le> a \<and> a < 3 \<and> 0 \<le> b \<and> b < 3"
  by (auto simp: in_bounds_def less_Suc_eq numeral_2_eq_2)

lemma expand_scenario_first_wave:
  "expand_ndimensional_grid [3, 3] [KTuple [1, 1]] {KTuple [1, 1]} =
     Inr [(KTuple [1, 1], KTuple [0, 1]), (KTuple [1, 1], KTuple [2, 1]),
          (KTuple [1, 1], KTuple [1, 0]), (KTuple [1, 1], KTuple [1, 2])]"
  by (simp add: expand_ndimensional_grid_def upt_conv_Cons Let_def)

text \<open>
  The first wave of the 3 x 3 scan started at (1, 1): the four neighbours, all outside
  the seeds and within bounds, none twice.
\<close>

theorem expand_ndimensional_grid_emitted_witness:
  "expand_ndimensional_grid [3, 3] [KTuple [1, 1]] {KTuple [1, 1]} =
     Inr [(KTuple [1, 1], KTuple [0, 1]), (KTuple [1, 1], KTuple [2, 1]),
          (KTuple [1, 1], KTuple [1, 0]), (KTuple [1, 1], KTuple [1, 2])] \<and>
   set [KTuple [1, 1]] \<subseteq> {KTuple [1, 1]} \<and>
   in_bounds [3, 3] [1, 1] \<and>
   distinct [KTuple [0, 1], KTuple [2, 1], KTuple [1, 0], KTuple [1, 2]] \<and>
   emitted_ok [3, 3] [KTuple [1, 1]] {KTuple [1, 1]} (KTuple [1, 1], KTuple [1, 2]) \<and>
   KTuple [1, 2] \<notin> set [KTuple [1, 1]] \<and>
   in_bounds [3, 3] [1, 2]"
  using expand_ndimensional_grid_emitted[of "[3, 3]" "[KTuple [1, 1]]" "{KTuple [1, 1]}"]
    expand_scenario_first_wave
  by (simp add: in_bounds_3_3)

text \<open>
  C1 as the specification words it fails: with both \<open>(5, 0)\<close> and \<open>(5, 1)\<close> among the
  seeds of a 3 x 3 grid and nothing complete, the call emits the pair
  \<open>((5, 0), (5, 1))\<close>, whose neighbour is a seed and lies outside the grid on axis 0.
\<close>

theorem expand_ndimensional_grid_counterexample:
  "expand_ndimensional_grid [3, 3] [KTuple [5, 0], KTuple [5, 1]] {} =
     Inr [(KTuple [5, 0], KTuple [5, 1]), (KTuple [5, 1], KTuple [5, 0]),
          (KTuple [5, 1], KTuple [5, 2])] \<and>
   KTuple [5, 1] \<in> set [KTuple [5, 0], KTuple [5, 1]] \<and>
   \<not> in_bounds [3, 3] [5, 1]"
  by (simp add: expand_ndimensional_grid_def upt_conv_Cons Let_def in_bounds_3_3)

section \<open>Properties of the starting grid\<close>

lemma ordered_floats_refl:
  "ordered_floats ops \<Longrightarrow> \<not> f_isnan ops a \<Longrightarrow> f_ge ops a a"
  unfolding ordered_floats_def by blast

lemma ordered_floats_total:
  "ordered_floats ops \<Longrightarrow> \<not> f_isnan ops a \<Longrightarrow> \<not> f_isnan ops b \<Longrightarrow> \<not> f_ge ops a b
     \<Longrightarrow> f_ge ops b a"
  unfolding ordered_floats_def by blast

lemma ordered_floats_trans:
  "ordered_floats ops \<Longrightarrow> f_ge ops a b \<Longrightarrow> f_ge ops b c \<Longrightarrow> f_ge ops a c"
  unfolding ordered_floats_def by blast

lemma ordered_floats_nan:
  "ordered_floats ops \<Longrightarrow> f_ge ops a b \<Longrightarrow> \<not> f_isnan ops a \<and> \<not> f_isnan ops b"
  unfolding ordered_floats_def by blast

lemma list_ex_nth: "list_ex P xs \<longleftrightarrow> (\<exists>j < length xs. P (xs ! j))"
  by (metis list_ex_iff in_set_conv_nth)

lemma argmin_from_spec:
  assumes "ordered_floats ops"
    and "i = length pre" "min_ind < i" "pre ! min_ind = mp"
    and "\<forall>j < length pre. \<not> f_isnan ops (pre ! j)"
    and "\<forall>j < length pre. f_ge ops (pre ! j) mp"
    and "\<forall>j < min_ind. \<not> f_ge ops mp (pre ! j)"
  shows "first_least ops (pre @ xs) (argmin_from ops mp min_ind i xs)"
  using assms(2-)
proof (induction xs arbitrary: mp min_ind i pre)
  case Nil
  have "\<not> list_ex (f_isnan ops) pre" using Nil.prems(4) by (simp add: list_ex_nth)
  then show ?case using Nil.prems by (simp add: first_least_def)
next
  case (Cons x xs)
  note ord = assms(1)
  have mpn: "\<not> f_isnan ops mp" using Cons.prems(1,2,3,4) by auto
  let ?pre = "pre @ [x]"
  show ?case
  proof (cases "f_ge ops x mp")
    case True
    then have xn: "\<not> f_isnan ops x" using ordered_floats_nan[OF ord] by blast
    have "first_least ops (?pre @ xs) (argmin_from ops mp min_ind (Suc i) xs)"
    proof (rule Cons.IH)
      show "Suc i = length ?pre" using Cons.prems(1) by simp
      show "min_ind < Suc i" using Cons.prems(2) by simp
      show "?pre ! min_ind = mp" using Cons.prems(1,2,3) by (simp add: nth_append)
      show "\<forall>j < length ?pre. \<not> f_isnan ops (?pre ! j)"
        using Cons.prems(4) xn by (auto simp: nth_append less_Suc_eq)
      show "\<forall>j < length ?pre. f_ge ops (?pre ! j) mp"
        using Cons.prems(5) True by (auto simp: nth_append less_Suc_eq)
      show "\<forall>j < min_ind. \<not> f_ge ops mp (?pre ! j)"
        using Cons.prems(1,2,6) by (auto simp: nth_append)
    qed
    then show ?thesis using True by simp
  next
    case False
    show ?thesis
    proof (cases "f_isnan ops x")
      case True
      have "list_ex (f_isnan ops) (pre @ x # xs)" using True by simp
      moreover have "(pre @ x # xs) ! i = x" using Cons.prems(1) by simp
      moreover have "\<forall>j < i. \<not> f_isnan ops ((pre @ x # xs) ! j)"
        using Cons.prems(1,4) by (simp add: nth_append)
      moreover have "i < length (pre @ x # xs)" using Cons.prems(1) by simp
      ultimately have "first_least ops (pre @ x # xs) i" using True
        by (simp add: first_least_def)
      then show ?thesis using False True by simp
    next
      case xn: False
      have mx: "f_ge ops mp x" by (rule ordered_floats_total[OF ord xn mpn False])
      have "first_least ops (?pre @ xs) (argmin_from ops x i (Suc i) xs)"
      proof (rule Cons.IH)
        show "Suc i = length ?pre" using Cons.prems(1) by simp
        show "i < Suc i" by simp
        show "?pre ! i = x" using Cons.prems(1) by simp
        show "\<forall>j < length ?pre. \<not> f_isnan ops (?pre ! j)"
          using Cons.prems(4) xn by (auto simp: nth_append less_Suc_eq)
        show "\<forall>j < length ?pre. f_ge ops (?pre ! j) x"
        proof (intro allI impI)
          fix j assume "j < length ?pre"
          then consider "j < length pre" | "j = length pre" by fastforce
          then show "f_ge ops (?pre ! j) x"
          proof cases
            case 1
            then have "f_ge ops (pre ! j) mp" using Cons.prems(5) by simp
            then have "f_ge ops (pre ! j) x" using mx ordered_floats_trans[OF ord] by blast
            then show ?thesis using 1 by (simp add: nth_append)
          next
            case 2
            then show ?thesis using ordered_floats_refl[OF ord xn] by simp
          qed
        qed
        show "\<forall>j < i. \<not> f_ge ops x (?pre ! j)"
        proof (intro allI impI notI)
          fix j assume j: "j < i" and g: "f_ge ops x (?pre ! j)"
          have "f_ge ops (pre ! j) mp" using Cons.prems(1,5) j by simp
          moreover have "f_ge ops x (pre ! j)" using g j Cons.prems(1) by (simp add: nth_append)
          ultimately have "f_ge ops x mp" using ordered_floats_trans[OF ord] by blast
          then show False using False by simp
        qed
      qed
      then show ?thesis using False xn by simp
    qed
  qed
qed

lemma argmin_spec:
  assumes "ordered_floats ops" "argmin ops xs = Inr i"
  shows "first_least ops xs i"
proof (cases xs)
  case Nil
  then show ?thesis using assms(2) by (simp add: argmin_def)
next
  case (Cons x rest)
  show ?thesis
  proof (cases "f_isnan ops x")
    case True
    then have "i = 0" using assms(2) Cons by (simp add: argmin_def)
    then show ?thesis using True Cons by (simp add: first_least_def)
  next
    case False
    then have i: "i = argmin_from ops x 0 1 rest" using assms(2) Cons by (simp add: argmin_def)
    have "first_least ops ([x] @ rest) (argmin_from ops x 0 1 rest)"
      by (rule argmin_from_spec[OF assms(1)])
         (simp_all add: False ordered_floats_refl[OF assms(1) False])
    then show ?thesis using i Cons by simp
  qed
qed

lemma argmin_returns: "xs \<noteq> [] \<Longrightarrow> \<exists>i. argmin ops xs = Inr i"
  by (cases xs) (simp_all add: argmin_def)

lemma starting_grid_loop_spec:
  assumes "ordered_floats ops" "starting_grid_loop ops mol_measure scans molecule = Inr grid"
  shows "length grid = length scans \<and>
         (\<forall>d < length scans. \<exists>i m. grid ! d = int i \<and>
            scan_reference ops mol_measure (scans ! d) molecule = Inr m \<and>
            first_least ops (distances ops (steps (scans ! d)) m) i)"
  using assms(2)
proof (induction scans arbitrary: grid)
  case Nil
  then show ?case by simp
next
  case (Cons scan scans)
  from Cons.prems obtain m idx rest where
    m: "scan_reference ops mol_measure scan molecule = Inr m"
    and idx: "argmin ops (distances ops (steps scan) m) = Inr idx"
    and rest: "starting_grid_loop ops mol_measure scans molecule = Inr rest"
    and grid: "grid = int idx # rest"
    by (auto split: sum.splits)
  have fc: "first_least ops (distances ops (steps scan) m) idx"
    by (rule argmin_spec[OF assms(1) idx])
  have ih: "length rest = length scans \<and>
         (\<forall>d < length scans. \<exists>i m. rest ! d = int i \<and>
            scan_reference ops mol_measure (scans ! d) molecule = Inr m \<and>
            first_least ops (distances ops (steps (scans ! d)) m) i)"
    by (rule Cons.IH[OF rest])
  show ?case
  proof (intro conjI allI impI)
    show "length grid = length (scan # scans)" using grid ih by simp
  next
    fix d assume "d < length (scan # scans)"
    then show "\<exists>i m. grid ! d = int i \<and>
            scan_reference ops mol_measure ((scan # scans) ! d) molecule = Inr m \<and>
            first_least ops (distances ops (steps ((scan # scans) ! d)) m) i"
      using grid fc m ih by (cases d) auto
  qed
qed

lemma starting_grid_loop_returns:
  assumes "\<forall>scan \<in> set scans. steps scan \<noteq> [] \<and>
             (\<exists>m. scan_reference ops mol_measure scan molecule = Inr m)"
  shows "\<exists>grid. starting_grid_loop ops mol_measure scans molecule = Inr grid"
  using assms
proof (induction scans)
  case Nil
  then show ?case by simp
next
  case (Cons scan scans)
  then obtain m where m: "scan_reference ops mol_measure scan molecule = Inr m" by auto
  have "distances ops (steps scan) m \<noteq> []" using Cons.prems by (simp add: distances_def)
  then obtain i where i: "argmin ops (distances ops (steps scan) m) = Inr i"
    using argmin_returns by blast
  obtain rest where "starting_grid_loop ops mol_measure scans molecule = Inr rest"
    using Cons by auto
  then show ?case using m i by simp
qed

text \<open>
  C2, as the code has it. When the call returns, the scan dictionaries have validated and
  for every scan dimension \<open>d\<close> the returned index is what \<^verbatim>\<open>argmin\<close> answers on the
  doubles \<open>|steps[i] - m|\<close> as they are computed: the first index whose distance no other
  distance is below (the first NaN, should a distance be NaN), where \<open>m\<close> is the
  measured coordinate of the molecule when the scan is absolute and 0 when it is
  relative. The call returns whenever the dictionaries validate, every scan has at least
  one step and the measurement of every absolute scan returns; it raises what the
  validation raises.
\<close>

theorem calculate_starting_grid_closest:
  "(ordered_floats ops \<longrightarrow>
      (\<forall>grid. calculate_starting_grid ops parse_scans mol_measure scans_dict molecule = Inr grid \<longrightarrow>
         (\<exists>scans. parse_scans scans_dict = Inr scans \<and> length grid = length scans \<and>
            (\<forall>d < length scans. \<exists>i m. grid ! d = int i \<and>
               (case step_type (scans ! d) of
                  Absolute \<Rightarrow> mol_measure molecule (indices (scans ! d)) = Inr m
                | Relative \<Rightarrow> m = f_zero ops) \<and>
               first_least ops (distances ops (steps (scans ! d)) m) i)))) \<and>
   (\<forall>scans. parse_scans scans_dict = Inr scans \<longrightarrow>
      (\<forall>scan \<in> set scans. steps scan \<noteq> [] \<and>
         (step_type scan = Absolute \<longrightarrow> (\<exists>m. mol_measure molecule (indices scan) = Inr m))) \<longrightarrow>
      (\<exists>grid. calculate_starting_grid ops parse_scans mol_measure scans_dict molecule = Inr grid)) \<and>
   (\<forall>e. parse_scans scans_dict = Inl e \<longrightarrow>
      calculate_starting_grid ops parse_scans mol_measure scans_dict molecule = Inl e)"
proof (intro conjI allI impI)
  fix grid
  assume ord: "ordered_floats ops"
    and run: "calculate_starting_grid ops parse_scans mol_measure scans_dict molecule = Inr grid"
  then obtain scans where p: "parse_scans scans_dict = Inr scans"
    and l: "starting_grid_loop ops mol_measure scans molecule = Inr grid"
    by (auto simp: calculate_starting_grid_def split: sum.splits)
  have s: "length grid = length scans \<and>
         (\<forall>d < length scans. \<exists>i m. grid ! d = int i \<and>
            scan_reference ops mol_measure (scans ! d) molecule = Inr m \<and>
            first_least ops (distances ops (steps (scans ! d)) m) i)"
    by (rule starting_grid_loop_spec[OF ord l])
  have "\<forall>d < length scans. \<exists>i m. grid ! d = int i \<and>
               (case step_type (scans ! d) of
                  Absolute \<Rightarrow> mol_measure molecule (indices (scans ! d)) = Inr m
                | Relative \<Rightarrow> m = f_zero ops) \<and>
               first_least ops (distances ops (steps (scans ! d)) m) i"
  proof (intro allI impI)
    fix d assume "d < length scans"
    then obtain i m where "grid ! d = int i"
      "scan_reference ops mol_measure (scans ! d) molecule = Inr m"
      "first_least ops (distances ops (steps (scans ! d)) m) i"
      using s by blast
    then show "\<exists>i m. grid ! d = int i \<and>
               (case step_type (scans ! d) of
                  Absolute \<Rightarrow> mol_measure molecule (indices (scans ! d)) = Inr m
                | Relative \<Rightarrow> m = f_zero ops) \<and>
               first_least ops (distances ops (steps (scans ! d)) m) i"
      by (cases "step_type (scans ! d)") (auto simp: scan_reference_def)
  qed
  then show "\<exists>scans. parse_scans scans_dict = Inr scans \<and> length grid = length scans \<and>
            (\<forall>d < length scans. \<exists>i m. grid ! d = int i \<and>
               (case step_type (scans ! d) of
                  Absolute \<Rightarrow> mol_measure molecule (indices (scans ! d)) = Inr m
                | Relative \<Rightarrow> m = f_zero ops) \<and>
               first_least ops (distances ops (steps (scans ! d)) m) i)"
    using p s by blast
next
  fix scans
  assume p: "parse_scans scans_dict = Inr scans"
    and a: "\<forall>scan \<in> set scans. steps scan \<noteq> [] \<and>
         (step_type scan = Absolute \<longrightarrow> (\<exists>m. mol_measure molecule (indices scan) = Inr m))"
  have "\<forall>scan \<in> set scans. steps scan \<noteq> [] \<and>
             (\<exists>m. scan_reference ops mol_measure scan molecule = Inr m)"
  proof
    fix scan assume "scan \<in> set scans"
    then show "steps scan \<noteq> [] \<and> (\<exists>m. scan_reference ops mol_measure scan molecule = Inr m)"
      using a by (cases "step_type scan") (auto simp: scan_reference_def)
  qed
  then have "\<exists>grid. starting_grid_loop ops mol_measure scans molecule = Inr grid"
    by (rule starting_grid_loop_returns)
  then show "\<exists>grid. calculate_starting_grid ops parse_scans mol_measure scans_dict molecule = Inr grid"
    using p by (simp add: calculate_starting_grid_def)
next
  fix e
  assume "parse_scans scans_dict = Inl e"
  then show "calculate_starting_grid ops parse_scans mol_measure scans_dict molecule = Inl e"
    by (simp add: calculate_starting_grid_def)
qed

lemma ordered_exact_ops: "ordered_floats exact_ops"
  by (auto simp: ordered_floats_def exact_ops_def real_ge_def never_nan_def)

lemma first_least_exact_two:
  "first_least exact_ops (distances exact_ops [a, b] m) 0 \<longleftrightarrow> \<bar>a - m\<bar> \<le> \<bar>b - m\<bar>"
  by (auto simp: first_least_def distances_def exact_ops_def real_ge_def never_nan_def
      less_Suc_eq)

lemma starting_grid_two_scans:
  "calculate_starting_grid exact_ops validated constant_measure
     [\<lparr>scan_type = ''distance'', indices = [0, 1], steps = [0, 10], step_type = Relative\<rparr>,
      \<lparr>scan_type = ''distance'', indices = [0, 1], steps = [0, 10], step_type = Absolute\<rparr>]
     10 = Inr [0, 1]"
  by (simp add: calculate_starting_grid_def validated_def scan_reference_def
      constant_measure_def argmin_def distances_def exact_ops_def real_ge_def never_nan_def)

text \<open>
  A relative scan over the steps 0 and 10 and an absolute one over the same steps, on a
  molecule that measures 10: the relative scan starts at index 0, the absolute one at 1.
\<close>

theorem calculate_starting_grid_closest_witness:
  "ordered_floats exact_ops \<and>
   calculate_starting_grid exact_ops validated constant_measure
     [\<lparr>scan_type = ''distance'', indices = [0, 1], steps = [0, 10], step_type = Relative\<rparr>,
      \<lparr>scan_type = ''distance'', indices = [0, 1], steps = [0, 10], step_type = Absolute\<rparr>]
     10 = Inr [0, 1] \<and>
   first_least exact_ops (distances exact_ops [0, 10] 0) 0"
proof -
  let ?scans = "[\<lparr>scan_type = ''distance'', indices = [0, 1], steps = [0, 10 :: real], step_type = Relative\<rparr>,
      \<lparr>scan_type = ''distance'', indices = [0, 1], steps = [0, 10], step_type = Absolute\<rparr>]"
  obtain scans where v: "validated ?scans = Inr scans"
    and every: "\<forall>d < length scans. \<exists>i m. [0, 1 :: int] ! d = int i \<and>
               (case step_type (scans ! d) of
                  Absolute \<Rightarrow> constant_measure 10 (indices (scans ! d)) = Inr m
                | Relative \<Rightarrow> m = f_zero exact_ops) \<and>
               first_least exact_ops (distances exact_ops (steps (scans ! d)) m) i"
    using calculate_starting_grid_closest[of exact_ops validated constant_measure ?scans 10]
      ordered_exact_ops starting_grid_two_scans by blast
  have eq: "scans = ?scans" using v by (simp add: validated_def)
  then have "0 < length scans" by simp
  then obtain i m where "[0, 1 :: int] ! 0 = int i"
    and "case step_type (scans ! 0) of
                  Absolute \<Rightarrow> constant_measure 10 (indices (scans ! 0)) = Inr m
                | Relative \<Rightarrow> m = f_zero exact_ops"
    and "first_least exact_ops (distances exact_ops (steps (scans ! 0)) m) i"
    using every by blast
  then have "first_least exact_ops (distances exact_ops [0, 10] 0) 0"
    by (simp add: eq exact_ops_def)
  then show ?thesis using starting_grid_two_scans ordered_exact_ops by simp
qed

text \<open>
  C2 as the specification words it fails on a relative scan: on a molecule that measures
  10 the steps 0 and 10 give index 0, while step 1 is the one closest to the measured
  coordinate.
\<close>

theorem calculate_starting_grid_counterexample:
  "calculate_starting_grid exact_ops validated constant_measure
     [\<lparr>scan_type = ''distance'', indices = [0, 1], steps = [0, 10], step_type = Relative\<rparr>]
     10 = Inr [0] \<and>
   constant_measure 10 [0, 1] = Inr 10 \<and>
   \<not> first_least exact_ops (distances exact_ops [0, 10] 10) 0"
  by (simp add: calculate_starting_grid_def validated_def scan_reference_def
      constant_measure_def argmin_def first_least_exact_two)
     (simp add: distances_def exact_ops_def real_ge_def never_nan_def)

section \<open>Properties of the task routes\<close>

text \<open>
  C7. The limit \<^verbatim>\<open>claim_tasks_v1\<close> passes to the task queue is the requested limit
  clipped to the configured maximum, so never above it and the requested one when that is
  within the maximum. \<^verbatim>\<open>return_tasks_v1\<close> answers a batch strictly larger than the
  same maximum with \<^verbatim>\<open>LimitExceededError\<close> and leaves the database as it was:
  the storage socket is not called. Any other batch goes to the storage socket.
\<close>

theorem task_routes_limits:
  "claim_tasks_v1 max_limit claim_tasks body db =
     claim_tasks db (claim_fullname body) (claim_tags body) (min (claim_limit body) max_limit) \<and>
   min (claim_limit body) max_limit \<le> max_limit \<and>
   (claim_limit body \<le> max_limit \<longrightarrow> min (claim_limit body) max_limit = claim_limit body) \<and>
   (int (length (results rbody)) > max_limit \<longrightarrow>
      return_tasks_v1 max_limit update_finished rbody db' =
        (Inl (LimitExceededError max_limit), db')) \<and>
   (int (length (results rbody)) \<le> max_limit \<longrightarrow>
      return_tasks_v1 max_limit update_finished rbody db' =
        (Inr (fst (update_finished db' (return_fullname rbody) (results rbody))),
         snd (update_finished db' (return_fullname rbody) (results rbody))))"
  by (auto simp: claim_tasks_v1_def calculate_limit_def return_tasks_v1_def split: prod.splits)

text \<open>
  With a maximum of 2: a claim asking for 5 reaches the queue with limit 2; a return of
  three results is refused and stores nothing.
\<close>

theorem task_routes_limits_witness:
  "claim_tasks_v1 2 claim_up_to
     \<lparr>claim_fullname = ''m1'', claim_tags = [''*''], claim_limit = 5\<rparr> [] = (2, []) \<and>
   int (length (results \<lparr>return_fullname = ''m1'', results = [7, 8, 9 :: nat]\<rparr>)) > 2 \<and>
   return_tasks_v1 2 store_results \<lparr>return_fullname = ''m1'', results = [7, 8, 9]\<rparr> [1] =
     (Inl (LimitExceededError 2), [1]) \<and>
   return_tasks_v1 2 store_results \<lparr>return_fullname = ''m1'', results = [7, 8]\<rparr> [1] =
     (Inr 2, [1, 7, 8])"
  using task_routes_limits[of 2 claim_up_to
      "\<lparr>claim_fullname = ''m1'', claim_tags = [''*''], claim_limit = 5\<rparr>" "[]"
      "\<lparr>return_fullname = ''m1'', results = [7, 8, 9 :: nat]\<rparr>" store_results "[1]"]
    task_routes_limits[of 2 claim_up_to
      "\<lparr>claim_fullname = ''m1'', claim_tags = [''*''], claim_limit = 5\<rparr>" "[]"
      "\<lparr>return_fullname = ''m1'', results = [7, 8 :: nat]\<rparr>" store_results "[1]"]
  by (simp add: claim_up_to_def store_results_def)

section \<open>Properties of the lowercase fields\<close>

lemma lower_char_not_capital: "\<not> is_capital (lower_char c)"
proof (cases "is_capital c")
  case True
  then have "(of_char c :: nat) + 32 < 256" by (auto simp: is_capital_def Let_def)
  then have "(of_char (char_of ((of_char c :: nat) + 32) :: char) :: nat) = of_char c + 32"
    by (simp add: of_char_of)
  then show ?thesis using True by (auto simp: lower_char_def is_capital_def Let_def)
next
  case False
  then show ?thesis by (simp add: lower_char_def)
qed

lemma lower_char_idem: "lower_char (lower_char c) = lower_char c"
  using lower_char_not_capital[of c] by (simp add: lower_char_def)

lemma lower_char_fixed: "lower_char c = c \<longleftrightarrow> \<not> is_capital c"
  using lower_char_not_capital[of c] by (auto simp: lower_char_def)

lemma lower_idem: "lower (lower v) = lower v"
  by (simp add: lower_def lower_char_idem)

lemma lower_no_capital: "list_all (\<lambda>c. \<not> is_capital c) (lower v)"
  by (simp add: lower_def list_all_iff lower_char_not_capital)

lemma lower_fixed: "v = lower v \<longleftrightarrow> list_all (\<lambda>c. \<not> is_capital c) v"
proof -
  have "map lower_char v = v \<longleftrightarrow> (\<forall>c \<in> set v. lower_char c = c)"
    by (simp add: map_idI map_eq_conv[where g = id, simplified])
  then show ?thesis by (auto simp: lower_def list_all_iff lower_char_fixed)
qed

lemma row_accepted_append:
  "row_accepted (s\<lparr>checks := checks s @ cs\<rparr>) table r \<longleftrightarrow>
     row_accepted s table r \<and> list_all (\<lambda>ck. ck_table ck \<noteq> table \<or> check_passes ck r) cs"
  by (simp add: row_accepted_def)

lemma upgrade_result_checks:
  "row_accepted (upgrade s) ''result'' r \<longleftrightarrow>
     row_accepted s ''result'' r \<and>
     check_passes \<lparr>ck_name = ''ck_result_program_lower'', ck_table = ''result'', ck_column = ''program''\<rparr> r \<and>
     check_passes \<lparr>ck_name = ''ck_result_driver_lower'', ck_table = ''result'', ck_column = ''driver''\<rparr> r \<and>
     check_passes \<lparr>ck_name = ''ck_result_method_lower'', ck_table = ''result'', ck_column = ''method''\<rparr> r \<and>
     check_passes \<lparr>ck_name = ''ck_result_basis_lower'', ck_table = ''result'', ck_column = ''basis''\<rparr> r"
  by (simp add: upgrade_def row_accepted_def)

lemma check_passes_text:
  "map_of r (ck_column ck) = Some (Some v) \<Longrightarrow> check_passes ck r \<longleftrightarrow> v = lower v"
  by (simp add: check_passes_def)

text \<open>
  C8. The validators return the lowercase of their input: a string of the same length
  with no capital letter left, equal to the input exactly when the input has none; so
  validating twice changes nothing more. Once the migration has run, the table \<^verbatim>\<open>result\<close> accepts a row only
  if each of \<^verbatim>\<open>program\<close>, \<^verbatim>\<open>driver\<close>, \<^verbatim>\<open>method\<close> and \<^verbatim>\<open>basis\<close>
  that holds a text holds a lowercase one; the values the validators return pass.
\<close>

theorem lowercase_boundary_and_store:
  "check_program v = lower v \<and> check_method v = lower v \<and> check_basis v = lower v \<and>
   lower (lower v) = lower v \<and>
   length (lower v) = length v \<and>
   list_all (\<lambda>c. \<not> is_capital c) (lower v) \<and>
   (v = lower v \<longleftrightarrow> list_all (\<lambda>c. \<not> is_capital c) v) \<and>
   (row_accepted (upgrade s) ''result'' r \<longrightarrow>
      c \<in> {''program'', ''driver'', ''method'', ''basis''} \<longrightarrow>
      map_of r c = Some (Some x) \<longrightarrow> x = lower x) \<and>
   (row_accepted s ''result'' r \<longrightarrow>
      map_of r ''program'' = Some (Some (check_program p)) \<longrightarrow>
      map_of r ''driver'' = Some (Some (lower d)) \<longrightarrow>
      map_of r ''method'' = Some (Some (check_method m)) \<longrightarrow>
      map_of r ''basis'' = Some (Some (check_basis b)) \<longrightarrow>
      row_accepted (upgrade s) ''result'' r)"
proof (intro conjI impI)
  show "check_program v = lower v" by (simp add: check_program_def)
  show "check_method v = lower v" by (simp add: check_method_def)
  show "check_basis v = lower v" by (simp add: check_basis_def prepare_basis_def)
  show "lower (lower v) = lower v" by (rule lower_idem)
  show "length (lower v) = length v" by (simp add: lower_def)
  show "list_all (\<lambda>c. \<not> is_capital c) (lower v)" by (rule lower_no_capital)
  show "v = lower v \<longleftrightarrow> list_all (\<lambda>c. \<not> is_capital c) v" by (rule lower_fixed)
next
  assume acc: "row_accepted (upgrade s) ''result'' r"
    and c: "c \<in> {''program'', ''driver'', ''method'', ''basis''}"
    and x: "map_of r c = Some (Some x)"
  from c consider "c = ''program''" | "c = ''driver''" | "c = ''method''" | "c = ''basis''"
    by blast
  then show "x = lower x"
  proof cases
    case 1
    then show ?thesis using acc x by (simp add: upgrade_result_checks check_passes_def)
  next
    case 2
    then show ?thesis using acc x by (simp add: upgrade_result_checks check_passes_def)
  next
    case 3
    then show ?thesis using acc x by (simp add: upgrade_result_checks check_passes_def)
  next
    case 4
    then show ?thesis using acc x by (simp add: upgrade_result_checks check_passes_def)
  qed
next
  assume "row_accepted s ''result'' r"
    and "map_of r ''program'' = Some (Some (check_program p))"
    and "map_of r ''driver'' = Some (Some (lower d))"
    and "map_of r ''method'' = Some (Some (check_method m))"
    and "map_of r ''basis'' = Some (Some (check_basis b))"
  then show "row_accepted (upgrade s) ''result'' r"
    by (simp add: upgrade_result_checks check_passes_def check_program_def check_method_def
        check_basis_def prepare_basis_def lower_idem)
qed

lemma lower_B3LYP: "lower ''B3LYP'' = ''b3lyp''"
  by code_simp

lemma lower_Psi4: "lower ''Psi4'' = ''psi4''"
  by code_simp

lemma lower_basis: "lower ''6-31G'' = ''6-31g''"
  by code_simp

lemma lower_energy: "lower ''energy'' = ''energy''"
  by code_simp

lemma lower_accented: "lower [CHR 0xC9, CHR 0xD7, CHR 0xDF] = [CHR 0xE9, CHR 0xD7, CHR 0xDF]"
  by code_simp


text \<open>
  A row built from validated fields is accepted by the migrated, previously empty schema;
  the same row with the method left in capitals is refused. An accented capital
  (\<open>U+00C9\<close>) is folded, the multiplication sign and the sharp s are not.
\<close>

lemma example_row_columns:
  "map_of example_row ''program'' = Some (Some (check_program ''Psi4''))"
  "map_of example_row ''driver'' = Some (Some (lower ''energy''))"
  "map_of example_row ''method'' = Some (Some (check_method ''B3LYP''))"
  "map_of example_row ''basis'' = Some (Some (check_basis ''6-31G''))"
  by code_simp+

lemma example_row_before: "row_accepted \<lparr>not_null = [], checks = []\<rparr> ''result'' example_row"
  by (simp add: row_accepted_def)

lemma capital_row_method: "map_of capital_row ''method'' = Some (Some ''B3LYP'')"
  by code_simp

lemma method_column: "''method'' \<in> {''program'', ''driver'', ''method'', ''basis''}"
  by simp

theorem lowercase_boundary_and_store_witness:
  "check_program ''Psi4'' = ''psi4'' \<and> check_method ''B3LYP'' = ''b3lyp'' \<and>
   check_basis ''6-31G'' = ''6-31g'' \<and>
   check_program [CHR 0xC9, CHR 0xD7, CHR 0xDF] = [CHR 0xE9, CHR 0xD7, CHR 0xDF] \<and>
   row_accepted (upgrade \<lparr>not_null = [], checks = []\<rparr>) ''result'' example_row \<and>
   \<not> row_accepted (upgrade \<lparr>not_null = [], checks = []\<rparr>) ''result'' capital_row"
proof -
  let ?s = "\<lparr>not_null = [], checks = []\<rparr>"
  note good = lowercase_boundary_and_store[of "''Psi4''" ?s example_row "''method''" "''b3lyp''"
        "''Psi4''" "''energy''" "''B3LYP''" "''6-31G''"]
  note bad = lowercase_boundary_and_store[of "''B3LYP''" ?s capital_row "''method''" "''B3LYP''"
        "''Psi4''" "''energy''" "''B3LYP''" "''6-31G''"]
  have p: "check_program ''Psi4'' = ''psi4''" using good lower_Psi4 by simp
  have m: "check_method ''B3LYP'' = ''b3lyp''" using bad lower_B3LYP by simp
  have b: "check_basis ''6-31G'' = ''6-31g''"
    using lowercase_boundary_and_store[of "''6-31G''" ?s example_row "''method''" "''b3lyp''"
        "''Psi4''" "''energy''" "''B3LYP''" "''6-31G''"] lower_basis by simp
  have a: "check_program [CHR 0xC9, CHR 0xD7, CHR 0xDF] = [CHR 0xE9, CHR 0xD7, CHR 0xDF]"
    using lowercase_boundary_and_store[of "[CHR 0xC9, CHR 0xD7, CHR 0xDF]" ?s example_row
        "''method''" "''b3lyp''" "''Psi4''" "''energy''" "''B3LYP''" "''6-31G''"]
      lower_accented by simp
  have ok: "row_accepted (upgrade ?s) ''result'' example_row"
    using good example_row_before example_row_columns by blast
  have "''B3LYP'' = lower ''B3LYP''" if "row_accepted (upgrade ?s) ''result'' capital_row"
    using bad that method_column capital_row_method by blast
  then have "\<not> row_accepted (upgrade ?s) ''result'' capital_row"
    by (auto simp: lower_B3LYP)
  then show ?thesis using p m b a ok by simp
qed

section \<open>Properties of the key serialization\<close>

declare str_nat.simps [simp del]
declare scan_items.simps [simp del]

lemma str_nat_digits: "\<forall>c \<in> set (str_nat n). is_digit c"
proof (induction n rule: str_nat.induct)
  case (1 n)
  show ?case
  proof (cases "n < 10")
    case True
    then show ?thesis by (subst str_nat.simps) (simp add: is_digit_def)
  next
    case False
    then show ?thesis using 1 by (subst str_nat.simps) (simp add: is_digit_def)
  qed
qed

lemma str_nat_nonempty: "str_nat n \<noteq> []"
  by (subst str_nat.simps) simp

lemma nat_of_digits_snoc: "nat_of_digits (ds @ [c]) = 10 * nat_of_digits ds + (c - 48)"
  by (simp add: nat_of_digits_def)

lemma nat_of_digits_str_nat: "nat_of_digits (str_nat n) = n"
proof (induction n rule: str_nat.induct)
  case (1 n)
  show ?case
  proof (cases "n < 10")
    case True
    then show ?thesis by (subst str_nat.simps) (simp add: nat_of_digits_def)
  next
    case False
    then have "nat_of_digits (str_nat (n div 10)) = n div 10" using 1 by simp
    then show ?thesis using False
      by (subst str_nat.simps) (simp add: nat_of_digits_snoc)
  qed
qed

lemma str_nat_leading: "0 < n \<Longrightarrow> hd (str_nat n) \<noteq> 48"
proof (induction n rule: str_nat.induct)
  case (1 n)
  show ?case
  proof (cases "n < 10")
    case True
    then show ?thesis using 1(2) by (subst str_nat.simps) simp
  next
    case False
    then have "hd (str_nat (n div 10)) \<noteq> 48" using 1 by simp
    then show ?thesis using False
      by (subst str_nat.simps) (simp add: str_nat_nonempty)
  qed
qed

lemma str_nat_zero: "str_nat 0 = [48]"
  by (subst str_nat.simps) simp

lemma str_nat_no_leading_zero: "\<not> (hd (str_nat n) = 48 \<and> 1 < length (str_nat n))"
  by (cases "n = 0") (auto simp: str_nat_zero dest: str_nat_leading)

lemma takeWhile_digits:
  assumes "r = [] \<or> \<not> is_digit (hd r)"
  shows "takeWhile is_digit (str_nat n @ r) = str_nat n"
    and "dropWhile is_digit (str_nat n @ r) = r"
proof -
  have t: "takeWhile is_digit r = []" and d: "dropWhile is_digit r = r"
    using assms by (cases r; auto)+
  show "takeWhile is_digit (str_nat n @ r) = str_nat n"
    using str_nat_digits[of n] t by (simp add: takeWhile_append2)
  show "dropWhile is_digit (str_nat n @ r) = r"
    using str_nat_digits[of n] d by (simp add: dropWhile_append2)
qed

lemma parse_nat_str_nat:
  assumes "int_end r" and "mx = 0 \<or> length (str_nat n) \<le> mx"
  shows "parse_nat mx (str_nat n @ r) = Some (n, r)"
proof -
  have e: "r = [] \<or> \<not> is_digit (hd r)" using assms(1) by (auto simp: int_end_def)
  have f: "\<not> (r \<noteq> [] \<and> (hd r = 46 \<or> hd r = 101 \<or> hd r = 69))"
    using assms(1) by (auto simp: int_end_def)
  have g: "\<not> (0 < mx \<and> mx < length (str_nat n))" using assms(2) by auto
  show ?thesis
    unfolding parse_nat_def
    using takeWhile_digits[OF e, of n] f g str_nat_nonempty[of n] str_nat_no_leading_zero[of n]
      nat_of_digits_str_nat[of n]
    by (simp add: Let_def)
qed

lemma str_nat_hd_digit: "is_digit (hd (str_nat n))"
  using str_nat_digits[of n] str_nat_nonempty[of n] by (cases "str_nat n") auto

lemma int_repr_within:
  "within_digits mx i \<Longrightarrow>
     int_repr mx i = Inr (if i < 0 then 45 # str_nat (nat \<bar>i\<bar>) else str_nat (nat \<bar>i\<bar>))"
  by (auto simp: int_repr_def within_digits_def Let_def)

lemma int_repr_beyond:
  "\<not> within_digits mx i \<Longrightarrow> int_repr mx i = Inl ValueError"
  by (auto simp: int_repr_def within_digits_def Let_def)

lemma parse_int_repr:
  assumes "int_end r" and "within_digits mx i" and "int_repr mx i = Inr t"
  shows "parse_int mx (t @ r) = Some (i, r)"
proof -
  let ?ds = "str_nat (nat \<bar>i\<bar>)"
  have lim: "mx = 0 \<or> length ?ds \<le> mx" using assms(2) by (simp add: within_digits_def)
  have p: "parse_nat mx (?ds @ r) = Some (nat \<bar>i\<bar>, r)"
    by (rule parse_nat_str_nat[OF assms(1) lim])
  show ?thesis
  proof (cases "i < 0")
    case True
    then have "t = 45 # ?ds" using assms(2,3) by (simp add: int_repr_within)
    then show ?thesis using True p by (simp add: parse_int_def)
  next
    case False
    then have t: "t = ?ds" using assms(2,3) by (simp add: int_repr_within)
    obtain c cs where cs: "?ds = c # cs"
      using str_nat_nonempty[of "nat \<bar>i\<bar>"] by (cases ?ds) auto
    then have "is_digit c" using str_nat_hd_digit[of "nat \<bar>i\<bar>"] by simp
    then have c: "c \<noteq> 45" by (auto simp: is_digit_def)
    have "parse_nat mx ((c # cs) @ r) = Some (nat \<bar>i\<bar>, r)" using p cs by simp
    then show ?thesis using False c cs t by (simp add: parse_int_def)
  qed
qed

lemma int_repr_head:
  assumes "int_repr mx i = Inr t"
  shows "\<exists>c cs. t = c # cs \<and> \<not> is_ws c \<and> c \<noteq> 93"
proof -
  let ?ds = "str_nat (nat \<bar>i\<bar>)"
  obtain c cs where cs: "?ds = c # cs"
    using str_nat_nonempty[of "nat \<bar>i\<bar>"] by (cases ?ds) auto
  then have "is_digit c" using str_nat_hd_digit[of "nat \<bar>i\<bar>"] by simp
  then have "\<not> is_ws c \<and> c \<noteq> 93" by (auto simp: is_digit_def is_ws_def)
  moreover have "t = (if i < 0 then 45 # ?ds else ?ds)"
    using assms by (auto simp: int_repr_def Let_def split: if_splits)
  ultimately show ?thesis using cs by (auto simp: is_ws_def)
qed

lemma write_items_head:
  assumes "write_items mx (x # xs) = Inr t"
  shows "\<exists>c cs. t = c # cs \<and> \<not> is_ws c \<and> c \<noteq> 93"
proof (cases xs)
  case Nil
  then show ?thesis using assms int_repr_head[of mx x t] by simp
next
  case (Cons y ys)
  then obtain a b where "int_repr mx x = Inr a" "t = a @ [44, 32] @ b"
    using assms by (auto split: sum.splits)
  then show ?thesis using int_repr_head[of mx x a] by auto
qed

lemma write_items_within:
  "list_all (within_digits mx) xs \<Longrightarrow> \<exists>t. write_items mx xs = Inr t"
proof (induction mx xs rule: write_items.induct)
  case (1 mx)
  then show ?case by simp
next
  case (2 mx x)
  then show ?case by (simp add: int_repr_within)
next
  case (3 mx x y ys)
  then show ?case by (auto simp: int_repr_within)
qed

lemma write_items_beyond:
  "\<not> list_all (within_digits mx) xs \<Longrightarrow> write_items mx xs = Inl ValueError"
proof (induction mx xs rule: write_items.induct)
  case (1 mx)
  then show ?case by simp
next
  case (2 mx x)
  then show ?case by (simp add: int_repr_beyond)
next
  case (3 mx x y ys)
  show ?case
  proof (cases "within_digits mx x")
    case True
    then have "write_items mx (y # ys) = Inl ValueError"
      using 3 int_repr_within[of mx x] by simp
    then show ?thesis using True by (simp add: int_repr_within)
  next
    case False
    then show ?thesis by (simp add: int_repr_beyond)
  qed
qed

lemma int_end_bracket: "int_end (93 # t)"
  by (simp add: int_end_def is_digit_def)

lemma int_end_comma: "int_end (44 # t)"
  by (simp add: int_end_def is_digit_def)

lemma scan_items_write:
  assumes "list_all (within_digits mx) (x # xs)" and "write_items mx (x # xs) = Inr body"
  shows "scan_items mx (body @ 93 # t) = Some (x # xs, t)"
  using assms
proof (induction xs arbitrary: x body)
  case Nil
  then have b: "int_repr mx x = Inr body" and w: "within_digits mx x" by simp_all
  have "parse_int mx (body @ 93 # t) = Some (x, 93 # t)"
    by (rule parse_int_repr[OF int_end_bracket w b])
  then show ?case
    by (subst scan_items.simps) (simp add: skip_ws_def is_ws_def)
next
  case (Cons y ys)
  from Cons.prems obtain a b where a: "int_repr mx x = Inr a"
    and b: "write_items mx (y # ys) = Inr b" and body: "body = a @ [44, 32] @ b"
    by (auto split: sum.splits)
  have w: "within_digits mx x" and ws: "list_all (within_digits mx) (y # ys)"
    using Cons.prems(1) by simp_all
  let ?rest = "b @ 93 # t"
  obtain c cs where h: "b = c # cs" "\<not> is_ws c"
    using write_items_head[OF b] by auto
  have p: "parse_int mx (a @ 44 # 32 # ?rest) = Some (x, 44 # 32 # ?rest)"
    by (rule parse_int_repr[OF int_end_comma w a])
  have s1: "skip_ws (44 # 32 # ?rest) = 44 # 32 # ?rest"
    by (simp add: skip_ws_def is_ws_def)
  have s2: "skip_ws (32 # ?rest) = ?rest"
    using h by (simp add: skip_ws_def is_ws_def)
  have ih: "scan_items mx ?rest = Some (y # ys, t)" by (rule Cons.IH[OF ws b])
  have "scan_items mx (a @ 44 # 32 # ?rest) = Some (x # y # ys, t)"
    by (subst scan_items.simps) (simp add: p s1 s2 ih)
  then show ?case using body by simp
qed

lemma hex_val_hex_digit: "d < 16 \<Longrightarrow> hex_val (hex_digit d) = Some d"
  by (auto simp: hex_val_def hex_digit_def)

lemma four_hex_digits:
  "((x div 4096 * 16 + x div 256 mod 16) * 16 + x div 16 mod 16) * 16 + x mod 16 = (x :: nat)"
proof -
  define a where "a = x div 16"
  define b where "b = a div 16"
  define c where "c = b div 16"
  have b': "x div 256 = b" unfolding b_def a_def by (simp add: div_mult2_eq)
  have c': "x div 4096 = c" unfolding c_def b_def a_def by (simp add: div_mult2_eq)
  have "c * 16 + b mod 16 = b" unfolding c_def by simp
  moreover have "b * 16 + a mod 16 = a" unfolding b_def by simp
  moreover have "a * 16 + x mod 16 = x" unfolding a_def by simp
  ultimately show ?thesis unfolding b' c' a_def[symmetric] by simp
qed

lemma hex4_u_escape:
  assumes "x < 0x10000"
  shows "hex4 (hex_digit (x div 4096)) (hex_digit (x div 256 mod 16))
           (hex_digit (x div 16 mod 16)) (hex_digit (x mod 16)) = Some x"
proof -
  have "x div 4096 < 16" using assms by simp
  then have a: "hex_val (hex_digit (x div 4096)) = Some (x div 4096)"
    by (rule hex_val_hex_digit)
  have b: "hex_val (hex_digit (x div 256 mod 16)) = Some (x div 256 mod 16)"
    by (rule hex_val_hex_digit) simp
  have c: "hex_val (hex_digit (x div 16 mod 16)) = Some (x div 16 mod 16)"
    by (rule hex_val_hex_digit) simp
  have d: "hex_val (hex_digit (x mod 16)) = Some (x mod 16)"
    by (rule hex_val_hex_digit) simp
  show ?thesis using four_hex_digits[of x] by (simp add: hex4_def a b c d)
qed

lemma scan_u_escape:
  assumes "x < 0x10000" and "join_surrogates x rest = Some (n, rest2)"
    and "scan_string rest2 = Some (s, t)"
  shows "scan_string (u_escape x @ rest) = Some (n # s, t)"
  using assms by (simp add: u_escape_def hex4_u_escape)

lemma join_not_high:
  "\<not> (0xD800 \<le> x \<and> x \<le> 0xDBFF) \<Longrightarrow> join_surrogates x rest = Some (x, rest)"
  unfolding join_surrogates_def by (simp only: if_False)

lemma join_pair:
  assumes "0xD800 \<le> hi" "hi \<le> 0xDBFF" "0xDC00 \<le> lo" "lo \<le> 0xDFFF"
  shows "join_surrogates hi (u_escape lo @ rest) =
           Some (0x10000 + ((hi - 0xD800) * 1024 + (lo - 0xDC00)), rest)"
proof -
  have "lo < 0x10000" using assms by simp
  then have h: "hex4 (hex_digit (lo div 4096)) (hex_digit (lo div 256 mod 16))
           (hex_digit (lo div 16 mod 16)) (hex_digit (lo mod 16)) = Some lo"
    by (rule hex4_u_escape)
  have hi: "0xD800 \<le> hi \<and> hi \<le> 0xDBFF" and lo: "0xDC00 \<le> lo \<and> lo \<le> 0xDFFF"
    using assms by simp_all
  show ?thesis
    unfolding join_surrogates_def u_escape_def
    by (simp only: hi lo h if_True append_Cons append_Nil list.case option.case simp_thms)
qed

lemma join_before_u_escape:
  assumes "y < 0x10000" "\<not> (0xDC00 \<le> y \<and> y \<le> 0xDFFF)"
  shows "join_surrogates x (u_escape y @ m) = Some (x, u_escape y @ m)"
proof (cases "0xD800 \<le> x \<and> x \<le> 0xDBFF")
  case True
  have h: "hex4 (hex_digit (y div 4096)) (hex_digit (y div 256 mod 16))
           (hex_digit (y div 16 mod 16)) (hex_digit (y mod 16)) = Some y"
    by (rule hex4_u_escape[OF assms(1)])
  show ?thesis
    unfolding join_surrogates_def u_escape_def
    by (simp only: True assms(2) h if_True if_False append_Cons append_Nil list.case
        option.case simp_thms)
next
  case False
  then show ?thesis by (rule join_not_high)
qed

lemma escape_cp_cases:
  obtains (short) k where "escape_cp c = [92, k]" "k \<noteq> 117" "unescape k = Some c"
  | (plain) "escape_cp c = [c]" "c \<noteq> 92" "c \<noteq> 34" "32 \<le> c"
  | (low) "escape_cp c = u_escape c" "c < 0x10000"
  | (astral) "escape_cp c = u_escape (0xD800 + (c - 0x10000) div 1024) @
                u_escape (0xDC00 + (c - 0x10000) mod 1024)" "0x10000 \<le> c"
proof -
  consider "c = 34" | "c = 92" | "c = 10" | "c = 13" | "c = 9" | "c = 8" | "c = 12"
    | "c \<noteq> 34" "c \<noteq> 92" "c \<noteq> 10" "c \<noteq> 13" "c \<noteq> 9" "c \<noteq> 8" "c \<noteq> 12"
    by blast
  then show thesis
  proof cases
    case 1
    then show ?thesis using short[of 34] by (simp add: escape_cp_def unescape_def)
  next
    case 2
    then show ?thesis using short[of 92] by (simp add: escape_cp_def unescape_def)
  next
    case 3
    then show ?thesis using short[of 110] by (simp add: escape_cp_def unescape_def)
  next
    case 4
    then show ?thesis using short[of 114] by (simp add: escape_cp_def unescape_def)
  next
    case 5
    then show ?thesis using short[of 116] by (simp add: escape_cp_def unescape_def)
  next
    case 6
    then show ?thesis using short[of 98] by (simp add: escape_cp_def unescape_def)
  next
    case 7
    then show ?thesis using short[of 102] by (simp add: escape_cp_def unescape_def)
  next
    case 8
    show ?thesis
    proof (cases "32 \<le> c \<and> c \<le> 126")
      case True
      have "escape_cp c = [c]" using 8 True by (auto simp: escape_cp_def)
      then show ?thesis using 8 True plain by blast
    next
      case False
      show ?thesis
      proof (cases "c < 0x10000")
        case True
        have "escape_cp c = u_escape c" using 8 False True by (auto simp: escape_cp_def)
        then show ?thesis using low True by blast
      next
        case nl: False
        have "escape_cp c = u_escape (0xD800 + (c - 0x10000) div 1024) @
                u_escape (0xDC00 + (c - 0x10000) mod 1024)"
          using 8 False nl by (auto simp: escape_cp_def)
        moreover have "0x10000 \<le> c" using nl by simp
        ultimately show ?thesis using astral by blast
      qed
    qed
  qed
qed

lemma join_before_escape:
  assumes "c < 0x110000" "\<not> (0xDC00 \<le> c \<and> c \<le> 0xDFFF)"
  shows "join_surrogates x (escape_cp c @ m) = Some (x, escape_cp c @ m)"
proof (cases c rule: escape_cp_cases)
  case (short k)
  then show ?thesis by (simp add: join_surrogates_def)
next
  case plain
  then show ?thesis by (cases m) (simp_all add: join_surrogates_def)
next
  case low
  then show ?thesis using assms join_before_u_escape[of c x m] by simp
next
  case astral
  let ?hi = "0xD800 + (c - 0x10000) div 1024"
  have "(c - 0x10000) div 1024 < 1024" using assms(1) by simp
  then have "?hi < 0x10000" "\<not> (0xDC00 \<le> ?hi \<and> ?hi \<le> 0xDFFF)" by simp_all
  then have "join_surrogates x (u_escape ?hi @ u_escape (0xDC00 + (c - 0x10000) mod 1024) @ m) =
      Some (x, u_escape ?hi @ u_escape (0xDC00 + (c - 0x10000) mod 1024) @ m)"
    by (rule join_before_u_escape)
  then show ?thesis using astral(1) by simp
qed

lemma join_before_rest:
  assumes "is_str s" "s = [] \<or> \<not> (0xDC00 \<le> hd s \<and> hd s \<le> 0xDFFF)"
  shows "join_surrogates x (concat (map escape_cp s) @ 34 # t) =
           Some (x, concat (map escape_cp s) @ 34 # t)"
proof (cases s)
  case Nil
  then show ?thesis by (cases t) (simp_all add: join_surrogates_def)
next
  case (Cons c s')
  then have "c < 0x110000" "\<not> (0xDC00 \<le> c \<and> c \<le> 0xDFFF)"
    using assms by (simp_all add: is_str_def)
  then have "join_surrogates x (escape_cp c @ concat (map escape_cp s') @ 34 # t) =
      Some (x, escape_cp c @ concat (map escape_cp s') @ 34 # t)"
    by (rule join_before_escape)
  then show ?thesis using Cons by simp
qed

lemma scan_string_escape_cp:
  assumes "scan_string rest = Some (s, t)" and "c < 0x110000"
    and "join_surrogates c rest = Some (c, rest)"
  shows "scan_string (escape_cp c @ rest) = Some (c # s, t)"
proof (cases c rule: escape_cp_cases)
  case (short k)
  then show ?thesis using assms(1) by simp
next
  case plain
  then show ?thesis using assms(1) by simp
next
  case low
  then show ?thesis using scan_u_escape[OF low(2) assms(3) assms(1)] by simp
next
  case astral
  let ?v = "c - 0x10000"
  let ?hi = "0xD800 + ?v div 1024"
  let ?lo = "0xDC00 + ?v mod 1024"
  have v: "?v div 1024 < 1024" using assms(2) by simp
  have hi: "0xD800 \<le> ?hi" "?hi \<le> 0xDBFF" "?hi < 0x10000" using v by simp_all
  have lo: "0xDC00 \<le> ?lo" "?lo \<le> 0xDFFF" by simp_all
  have "0x10000 + ((?hi - 0xD800) * 1024 + (?lo - 0xDC00)) = c"
    using astral(2) by simp
  then have j: "join_surrogates ?hi (u_escape ?lo @ rest) = Some (c, rest)"
    using join_pair[OF hi(1,2) lo, of rest] by simp
  have "scan_string (u_escape ?hi @ u_escape ?lo @ rest) = Some (c # s, t)"
    by (rule scan_u_escape[OF hi(3) j assms(1)])
  then show ?thesis using astral by simp
qed

lemma scan_string_escape:
  assumes "is_str s" "no_surrogate_pair s"
  shows "scan_string (concat (map escape_cp s) @ 34 # t) = Some (s, t)"
  using assms
proof (induction s)
  case Nil
  then show ?case by simp
next
  case (Cons c s)
  let ?rest = "concat (map escape_cp s) @ 34 # t"
  have str: "is_str s" and c: "c < 0x110000" using Cons.prems(1) by (simp_all add: is_str_def)
  have np: "no_surrogate_pair s" using Cons.prems(2) by (cases s) simp_all
  have ih: "scan_string ?rest = Some (s, t)" by (rule Cons.IH[OF str np])
  have j: "join_surrogates c ?rest = Some (c, ?rest)"
  proof (cases "0xD800 \<le> c \<and> c \<le> 0xDBFF")
    case True
    then have "s = [] \<or> \<not> (0xDC00 \<le> hd s \<and> hd s \<le> 0xDFFF)"
      using Cons.prems(2) by (cases s) auto
    then show ?thesis by (rule join_before_rest[OF str])
  next
    case False
    then show ?thesis by (rule join_not_high)
  qed
  show ?case using scan_string_escape_cp[OF ih c j] by simp
qed

lemma json_loads_dumps_str:
  assumes "is_str s" "no_surrogate_pair s"
  shows "json_loads mx (34 # concat (map escape_cp s) @ [34]) = Inr (JStr s)"
proof -
  have "scan_string (concat (map escape_cp s) @ [34]) = Some (s, [])"
    using scan_string_escape[OF assms, of "[]"] by simp
  then show ?thesis by (simp add: json_loads_def skip_ws_def is_ws_def)
qed

lemma json_loads_dumps_arr:
  assumes "list_all (within_digits mx) xs" "write_items mx xs = Inr body"
  shows "json_loads mx (91 # body @ [93]) = Inr (JArr xs)"
proof (cases xs)
  case Nil
  then show ?thesis using assms(2) by (simp add: json_loads_def skip_ws_def is_ws_def)
next
  case (Cons y ys)
  obtain c cs where h: "body = c # cs" "\<not> is_ws c" "c \<noteq> 93"
    using write_items_head[of mx y ys body] assms(2) Cons by auto
  have "scan_items mx (body @ [93]) = Some (y # ys, [])"
    using scan_items_write[of mx y ys body "[]"] assms Cons by simp
  then have s: "scan_items mx (c # cs @ [93]) = Some (y # ys, [])" using h by simp
  have "json_loads mx (91 # c # cs @ [93]) = Inr (JArr (y # ys))"
    using h s by (simp add: json_loads_def skip_ws_def is_ws_def)
  then show ?thesis using Cons h by simp
qed

lemma round_trip_str:
  assumes "is_str s" "no_surrogate_pair s"
  shows "\<exists>t. serialize_key mx (KStr s) = Inr t \<and> deserialize_key mx t = Inr (KStr s)"
  using json_loads_dumps_str[OF assms, of mx]
  by (simp add: serialize_key_def json_dumps_def deserialize_key_def)

lemma round_trip_tuple:
  assumes "list_all (within_digits mx) xs"
  shows "\<exists>t. serialize_key mx (KTuple xs) = Inr t \<and> deserialize_key mx t = Inr (KTuple xs)"
proof -
  obtain body where b: "write_items mx xs = Inr body"
    using write_items_within[OF assms] by auto
  show ?thesis
    using json_loads_dumps_arr[OF assms b] b
    by (simp add: serialize_key_def json_dumps_def deserialize_key_def)
qed

lemma serialize_tuple_beyond:
  assumes "\<not> list_all (within_digits mx) xs"
  shows "serialize_key mx (KTuple xs) = Inl ValueError"
  using write_items_beyond[OF assms] by (simp add: serialize_key_def json_dumps_def)

text \<open>
  C9, as the code has it. A string key comes back from
  \<^verbatim>\<open>deserialize_key(serialize_key(key))\<close> as it was when no high surrogate in it
  is directly followed by a low surrogate. A tuple of integers comes back as it was when
  each of its integers has no more decimal digits than the interpreter's limit on integer
  conversion (or the limit is off); with an integer beyond the limit
  \<^verbatim>\<open>serialize_key\<close> raises ValueError.
\<close>

theorem key_serialization_round_trip:
  "(is_str s \<longrightarrow> no_surrogate_pair s \<longrightarrow>
      (\<exists>t. serialize_key mx (KStr s) = Inr t \<and> deserialize_key mx t = Inr (KStr s))) \<and>
   (list_all (within_digits mx) xs \<longrightarrow>
      (\<exists>t. serialize_key mx (KTuple xs) = Inr t \<and> deserialize_key mx t = Inr (KTuple xs))) \<and>
   (\<not> list_all (within_digits mx) xs \<longrightarrow> serialize_key mx (KTuple xs) = Inl ValueError)"
  using round_trip_str[of s mx] round_trip_tuple[of mx xs] serialize_tuple_beyond[of mx xs]
  by blast

lemma example_tuple_text:
  "serialize_key 4300 (KTuple [1, -20, 305]) =
     Inr [91, 49, 44, 32, 45, 50, 48, 44, 32, 51, 48, 53, 93]"
  by code_simp

lemma example_tuple_within: "list_all (within_digits 4300) [1, -20, 305]"
  by code_simp

lemma example_str_text:
  "serialize_key 4300 (KStr [112, 0xD83D, 34, 0x1F600]) =
     Inr [34, 112, 92, 117, 100, 56, 51, 100, 92, 34,
          92, 117, 100, 56, 51, 100, 92, 117, 100, 101, 48, 48, 34]"
  by (simp add: serialize_key_def json_dumps_def escape_cp_def u_escape_def hex_digit_def)

lemma example_str_ok:
  "is_str [112, 0xD83D, 34, 0x1F600]" "no_surrogate_pair [112, 0xD83D, 34, 0x1F600]"
  by (simp_all add: is_str_def)


text \<open>
  With the default limit of 4300 digits: the tuple \<open>(1, -20, 305)\<close> is written as
  \<^verbatim>\<open>[1, -20, 305]\<close> and read back, and so is a string that holds a lone high
  surrogate, a double quote and a code point beyond the basic plane.
\<close>

theorem key_serialization_round_trip_witness:
  "list_all (within_digits 4300) [1, -20, 305] \<and>
   deserialize_key 4300 [91, 49, 44, 32, 45, 50, 48, 44, 32, 51, 48, 53, 93] =
     Inr (KTuple [1, -20, 305]) \<and>
   is_str [112, 0xD83D, 34, 0x1F600] \<and> no_surrogate_pair [112, 0xD83D, 34, 0x1F600] \<and>
   deserialize_key 4300
     [34, 112, 92, 117, 100, 56, 51, 100, 92, 34,
      92, 117, 100, 56, 51, 100, 92, 117, 100, 101, 48, 48, 34] =
     Inr (KStr [112, 0xD83D, 34, 0x1F600])"
  using key_serialization_round_trip[of "[112, 0xD83D, 34, 0x1F600]" 4300 "[1, -20, 305]"]
    example_tuple_text example_tuple_within example_str_text example_str_ok
  by auto

text \<open>
  C9 as the specification words it fails: the string of the two code points
  \<open>U+D83D U+DE00\<close> is written as two escapes of four hexadecimal digits each, which are read back as the
  single code point \<open>U+1F600\<close>.
\<close>

theorem key_serialization_counterexample:
  "serialize_key 4300 (KStr [0xD83D, 0xDE00]) =
     Inr [34, 92, 117, 100, 56, 51, 100, 92, 117, 100, 101, 48, 48, 34] \<and>
   deserialize_key 4300 [34, 92, 117, 100, 56, 51, 100, 92, 117, 100, 101, 48, 48, 34] =
     Inr (KStr [0x1F600]) \<and>
   KStr [0x1F600] \<noteq> KStr [0xD83D, 0xDE00]"
  by (simp add: serialize_key_def json_dumps_def escape_cp_def u_escape_def hex_digit_def
      deserialize_key_def json_loads_def skip_ws_def is_ws_def hex4_def hex_val_def
      join_surrogates_def unescape_def)

section \<open>Properties of adding grid optimizations\<close>

lemma add_lower_tag:
  "add sock go_spec initial_molecules (Some tag) priority db =
     add sock go_spec initial_molecules (Some (lower tag)) priority db"
  by (simp add: add_def lower_idem)

text \<open>
  C10. With a tag, every service row \<^verbatim>\<open>add\<close> creates is made by
  \<^verbatim>\<open>create_service\<close> with the lowercase of the submitted tag, and these rows are
  what \<^verbatim>\<open>insert_general\<close> receives whenever the specification and the molecules
  were added; so two submissions whose tags have the same lowercase, as tags that differ
  only in case do, give the same result and leave the same session.
\<close>

theorem add_tag_lowercase:
  "(\<forall>spec_meta spec_id db1 mol_meta init_mol_ids db2.
      add_specification sock go_spec db = (Inr (spec_meta, spec_id), db1) \<longrightarrow>
      meta_success sock spec_meta \<longrightarrow>
      add_mixed sock db1 initial_molecules = ((mol_meta, init_mol_ids), db2) \<longrightarrow>
      meta_success sock mol_meta \<longrightarrow>
      add sock go_spec initial_molecules (Some tag) priority db =
        (case insert_general sock db2
                (map (\<lambda>mid. create_service sock
                               \<lparr>new_is_service = True, new_specification_id = spec_id,
                                new_initial_molecule_id = mid, new_status = Waiting\<rparr>
                               (Some (lower tag)) priority)
                     init_mol_ids) of
           ((meta, ids), db3) \<Rightarrow>
             (case first_columns ids of
                Inl e \<Rightarrow> (Inl e, db3)
              | Inr r \<Rightarrow> (Inr (meta, r), db3)))) \<and>
   (lower tag = lower tag' \<longrightarrow>
      add sock go_spec initial_molecules (Some tag) priority db =
        add sock go_spec initial_molecules (Some tag') priority db)"
proof (intro conjI allI impI)
  fix spec_meta spec_id db1 mol_meta init_mol_ids db2
  assume "add_specification sock go_spec db = (Inr (spec_meta, spec_id), db1)"
    "meta_success sock spec_meta"
    "add_mixed sock db1 initial_molecules = ((mol_meta, init_mol_ids), db2)"
    "meta_success sock mol_meta"
  then show "add sock go_spec initial_molecules (Some tag) priority db =
        (case insert_general sock db2
                (map (\<lambda>mid. create_service sock
                               \<lparr>new_is_service = True, new_specification_id = spec_id,
                                new_initial_molecule_id = mid, new_status = Waiting\<rparr>
                               (Some (lower tag)) priority)
                     init_mol_ids) of
           ((meta, ids), db3) \<Rightarrow>
             (case first_columns ids of
                Inl e \<Rightarrow> (Inl e, db3)
              | Inr r \<Rightarrow> (Inr (meta, r), db3)))"
    by (simp add: add_def all_orm_def)
next
  assume "lower tag = lower tag'"
  then show "add sock go_spec initial_molecules (Some tag) priority db =
        add sock go_spec initial_molecules (Some tag') priority db"
    using add_lower_tag[of sock go_spec initial_molecules tag priority db]
      add_lower_tag[of sock go_spec initial_molecules tag' priority db]
    by simp
qed

lemma lower_Tag1: "lower ''Tag1'' = ''tag1''"
  by code_simp

lemma lower_TAG1: "lower ''TAG1'' = ''tag1''"
  by code_simp

lemma example_add_steps:
  "add_specification example_add_socket example_go_spec [] =
     (Inr (\<lparr>error_description = None, inserted_idx = [0], existing_idx = []\<rparr>, Some 7), [])"
  "meta_success example_add_socket \<lparr>error_description = None, inserted_idx = [0], existing_idx = []\<rparr>"
  "add_mixed example_add_socket [] [3, 4] =
     ((\<lparr>error_description = None, inserted_idx = [], existing_idx = []\<rparr>, [Some 3, Some 4]), [])"
  "meta_success example_add_socket \<lparr>error_description = None, inserted_idx = [], existing_idx = []\<rparr>"
  by (simp_all add: example_add_socket_def add_specification_def opt_spec_five_def
      insert_seven_def own_ids_def no_error_def)

text \<open>
  Submitting the molecules 3 and 4 with the tag \<^verbatim>\<open>Tag1\<close> stores two service rows
  tagged \<^verbatim>\<open>tag1\<close>, and the tag \<^verbatim>\<open>TAG1\<close> gives the same.
\<close>

theorem add_tag_lowercase_witness:
  "lower ''Tag1'' = lower ''TAG1'' \<and>
   add example_add_socket example_go_spec [3, 4] (Some ''TAG1'') Normal [] =
     add example_add_socket example_go_spec [3, 4] (Some ''Tag1'') Normal [] \<and>
   add example_add_socket example_go_spec [3, 4] (Some ''Tag1'') Normal [] =
     (Inr (\<lparr>error_description = None, inserted_idx = [0, 1], existing_idx = []\<rparr>, [0, 1]),
      [(\<lparr>new_is_service = True, new_specification_id = Some 7,
          new_initial_molecule_id = Some 3, new_status = Waiting\<rparr>, Some ''tag1'', Normal),
       (\<lparr>new_is_service = True, new_specification_id = Some 7,
          new_initial_molecule_id = Some 4, new_status = Waiting\<rparr>, Some ''tag1'', Normal)])"
proof -
  note t = add_tag_lowercase[of example_add_socket example_go_spec "[]" "[3, 4]" "''Tag1''" Normal "''TAG1''"]
  have same: "lower ''Tag1'' = lower ''TAG1''" by (simp add: lower_Tag1 lower_TAG1)
  have eq: "add example_add_socket example_go_spec [3, 4] (Some ''Tag1'') Normal [] =
     add example_add_socket example_go_spec [3, 4] (Some ''TAG1'') Normal []"
    using t same by blast
  have "add example_add_socket example_go_spec [3, 4] (Some ''Tag1'') Normal [] =
        (case insert_general example_add_socket []
                (map (\<lambda>mid. create_service example_add_socket
                               \<lparr>new_is_service = True, new_specification_id = Some 7,
                                new_initial_molecule_id = mid, new_status = Waiting\<rparr>
                               (Some (lower ''Tag1'')) Normal)
                     [Some 3, Some 4]) of
           ((meta, ids), db3) \<Rightarrow>
             (case first_columns ids of
                Inl e \<Rightarrow> (Inl e, db3)
              | Inr r \<Rightarrow> (Inr (meta, r), db3)))"
    using t example_add_steps by blast
  then have "add example_add_socket example_go_spec [3, 4] (Some ''Tag1'') Normal [] =
     (Inr (\<lparr>error_description = None, inserted_idx = [0, 1], existing_idx = []\<rparr>, [0, 1]),
      [(\<lparr>new_is_service = True, new_specification_id = Some 7,
          new_initial_molecule_id = Some 3, new_status = Waiting\<rparr>, Some ''tag1'', Normal),
       (\<lparr>new_is_service = True, new_specification_id = Some 7,
          new_initial_molecule_id = Some 4, new_status = Waiting\<rparr>, Some ''tag1'', Normal)])"
    by (simp add: lower_Tag1 example_add_socket_def store_rows_def with_service_def
        upt_conv_Cons)
  then show ?thesis using same eq by simp
qed

end
